theory Spec2Isabelle
  imports Main "HOL-Library.Word" "HOL-Library.Multiset" "HOL-Library.Signed_Division"
begin

unbundle bit_operations_syntax

section \<open>Data model\<close>

text \<open>
  The Go program works on \<open>Process\<close> values (one per operating-system process), on a
  \<open>ProcessTree\<close> holding the node table \<open>Nodes\<close>, and, in compact mode, on
  \<open>ProcessGroup\<close> values kept in a three-level map
  \<open>map[int32]map[string]map[string]ProcessGroup\<close> (parent PID, signature, owner).

  Machine integers are words of the width Go gives them: \<open>int32\<close> is \<open>32 word\<close>,
  \<open>int64\<close> and \<open>uint64\<close> are \<open>64 word\<close> (read with \<open>sint\<close> resp. \<open>unat\<close>), so
  \<open>+\<close> wraps as in Go. Slice indices and \<open>ProcessGroup.Count\<close> are Go \<open>int\<close>s
  that only ever count positions of one slice; they are modelled as \<open>nat\<close>.
  \<open>float64\<close> values are kept abstract: the type parameter \<open>'f\<close> stands for
  \<open>float64\<close>, and the model uses only its \<open>0\<close>, \<open>-1\<close>, \<open>+\<close> and \<open><\<close>; no
  algebraic law is assumed where values are added, and a linear order only where sorted
  output is described.
\<close>

type_synonym int32 = "32 word"
type_synonym int64 = "64 word"
type_synonym uint32 = "32 word"
type_synonym uint64 = "64 word"

record MemoryInfoStat =
  RSS :: uint64

text \<open>
  The fields of \<open>Process\<close> that the modelled functions read or write. \<open>MemoryInfo\<close> is
  a pointer in Go, \<open>None\<close> is the nil pointer. \<open>Signature\<close> is not set by
  \<open>GenerateProcess\<close> (it stays the empty string there) and is read by compact mode.
\<close>

record 'f Process =
  Age :: int64
  Args :: "string list"
  Child :: int
  Command :: string
  CPUPercent :: 'f
  CreateTime :: int64
  GIDs :: "uint32 list"
  Groups :: "uint32 list"
  MemoryInfo :: "MemoryInfoStat option"
  NumThreads :: int32
  Parent :: int
  PGID :: int32
  PID :: int32
  PPID :: int32
  Signature :: string
  Sister :: int
  UIDs :: "uint32 list"
  Username :: string

record 'f ProcessGroup =
  Count :: nat
  FirstIndex :: nat
  FullPath :: string
  Indices :: "nat list"
  Owner :: string
  GroupAge :: int64
  GroupCPUPercent :: 'f
  MemoryUsage :: uint64
  GroupNumThreads :: int32

record DisplayOptions =
  ColorAttr :: string
  ColorCount :: int
  ColorizeOutput :: bool
  ColorScheme :: string
  ColorSupport :: bool
  CompactMode :: bool
  Contains :: string
  ExcludeRoot :: bool
  IBM850Graphics :: bool
  InstalledMemory :: uint64
  MaxDepth :: int
  OrderBy :: string
  RainbowOutput :: bool
  RootPID :: int32
  ScreenWidth :: int
  ShowArguments :: bool
  ShowCpuPercent :: bool
  ShowMemoryUsage :: bool
  ShowNumThreads :: bool
  ShowOwner :: bool
  ShowPGIDs :: bool
  ShowPGLs :: bool
  ShowPIDs :: bool
  ShowPPIDs :: bool
  ShowProcessAge :: bool
  ShowUIDTransitions :: bool
  ShowUserTransitions :: bool
  Usernames :: "string list"
  UTF8Graphics :: bool
  VT100Graphics :: bool
  WideDisplay :: bool

type_synonym 'f GroupMap = "int32 \<rightharpoonup> (string \<rightharpoonup> (string \<rightharpoonup> 'f ProcessGroup))"

text \<open>
  The fields of \<open>ProcessTree\<close> that compact mode uses; \<open>TreeOptions\<close> is the field
  \<open>DisplayOptions\<close> of the Go struct. The map \<open>ProcessGroups\<close> is taken to be
  allocated (storing into a nil map would panic).
\<close>

record 'f ProcessTree =
  Nodes :: "'f Process list"
  ProcessGroups :: "'f GroupMap"
  TreeOptions :: DisplayOptions

text \<open>A run-time panic of the Go program (here: a nil pointer dereference).\<close>

datatype panic = NilPointer

text \<open>
  \<open>MemoryInfo.RSS\<close> of a process; \<open>0\<close> stands in for the nil pointer, which the
  model checks for wherever the program dereferences it.
\<close>

definition rss_of :: "'f Process \<Rightarrow> uint64" where
  "rss_of n = (case MemoryInfo n of None \<Rightarrow> 0 | Some mi \<Rightarrow> RSS mi)"

section \<open>Compact mode\<close>

text \<open>
  Reading the three-level Go map. \<open>m[p]\<close> on a missing key yields the nil map, and
  reading a nil map finds nothing, so a missing level reads as the empty map.
\<close>

definition at_parent :: "'f GroupMap \<Rightarrow> int32 \<Rightarrow> (string \<rightharpoonup> (string \<rightharpoonup> 'f ProcessGroup))" where
  "at_parent m p = (case m p of None \<Rightarrow> Map.empty | Some a \<Rightarrow> a)"

definition at_key :: "'f GroupMap \<Rightarrow> int32 \<Rightarrow> string \<Rightarrow> (string \<rightharpoonup> 'f ProcessGroup)" where
  "at_key m p k = (case at_parent m p k of None \<Rightarrow> Map.empty | Some b \<Rightarrow> b)"

text \<open>Go's built-in \<open>max\<close> on two \<open>int64\<close> values (a signed comparison).\<close>

definition max_int64 :: "int64 \<Rightarrow> int64 \<Rightarrow> int64" where
  "max_int64 x y = (if sint x < sint y then y else x)"

text \<open>
  Lines 519--530 of \<open>ProcessTree.InitCompactMode\<close>: the aggregate metrics of the group
  are updated from the node, each one only when its display option is set.
  \<open>Nodes[pidIndex].MemoryInfo.RSS\<close> dereferences a pointer and panics when it is nil.
\<close>

definition aggregate ::
  "DisplayOptions \<Rightarrow> ('f::{zero,plus}) Process \<Rightarrow> 'f ProcessGroup \<Rightarrow> panic + 'f ProcessGroup" where
  "aggregate opts node grp =
    (let g1 = (if ShowProcessAge opts
               then grp\<lparr>GroupAge := max_int64 (GroupAge grp) (Age node)\<rparr> else grp);
         g2 = (if ShowCpuPercent opts
               then g1\<lparr>GroupCPUPercent := GroupCPUPercent g1 + CPUPercent node\<rparr> else g1)
     in if ShowMemoryUsage opts
        then (case MemoryInfo node of
                None \<Rightarrow> Inl NilPointer
              | Some mi \<Rightarrow>
                  (let g3 = g2\<lparr>MemoryUsage := MemoryUsage g2 + RSS mi\<rparr>
                   in Inr (if ShowNumThreads opts
                           then g3\<lparr>GroupNumThreads := GroupNumThreads g3 + NumThreads node\<rparr>
                           else g3)))
        else Inr (if ShowNumThreads opts
                  then g2\<lparr>GroupNumThreads := GroupNumThreads g2 + NumThreads node\<rparr>
                  else g2))"

text \<open>
  One iteration of the loop of \<open>ProcessTree.InitCompactMode\<close> for the node at
  \<open>pidIndex\<close>. The state is the group map and the global \<open>skipProcesses\<close>, a
  \<open>map[int]bool\<close> that only ever stores \<open>true\<close>, modelled as the set of its keys.
\<close>

definition compact_step ::
  "DisplayOptions \<Rightarrow> ('f::{zero,plus}) Process \<Rightarrow> nat \<Rightarrow> 'f GroupMap \<times> nat set
    \<Rightarrow> panic + ('f GroupMap \<times> nat set)" where
  "compact_step opts node pidIndex st =
    (let groups = fst st; skipProcesses = snd st in
     if pidIndex \<in> skipProcesses then Inr st
     else
      (let parentPID = PPID node;
           processOwner = Username node;
           compositeKey = Signature node;
           groups1 = (if groups parentPID = None
                      then groups(parentPID \<mapsto> Map.empty) else groups);
           groups2 = (if at_parent groups1 parentPID compositeKey = None
                      then groups1(parentPID \<mapsto> (at_parent groups1 parentPID)(compositeKey \<mapsto> Map.empty))
                      else groups1);
           found = at_key groups2 parentPID compositeKey processOwner;
           grp = (case found of
                      None \<Rightarrow> \<lparr>Count = 1, FirstIndex = pidIndex, FullPath = [],
                                Indices = [pidIndex], Owner = processOwner, GroupAge = 0,
                                GroupCPUPercent = 0, MemoryUsage = 0, GroupNumThreads = 0\<rparr>
                    | Some g \<Rightarrow> g\<lparr>Count := Count g + 1, Indices := Indices g @ [pidIndex]\<rparr>);
           skipProcesses' = (case found of None \<Rightarrow> skipProcesses
                             | Some g \<Rightarrow> insert pidIndex skipProcesses)
       in case aggregate opts node grp of
            Inl e \<Rightarrow> Inl e
          | Inr grp' \<Rightarrow>
              Inr (groups2(parentPID \<mapsto>
                     (at_parent groups2 parentPID)(compositeKey \<mapsto>
                        (at_key groups2 parentPID compositeKey)(processOwner \<mapsto> grp'))),
                   skipProcesses')))"

text \<open>The loop \<open>for pidIndex := range processTree.Nodes\<close>, over a list of indices.\<close>

fun compact_loop ::
  "DisplayOptions \<Rightarrow> ('f::{zero,plus}) Process list \<Rightarrow> nat list \<Rightarrow> 'f GroupMap \<times> nat set
    \<Rightarrow> panic + ('f GroupMap \<times> nat set)" where
  "compact_loop opts nodes [] st = Inr st"
| "compact_loop opts nodes (i # is) st =
    (case compact_step opts (nodes ! i) i st of
       Inl e \<Rightarrow> Inl e
     | Inr st' \<Rightarrow> compact_loop opts nodes is st')"

text \<open>
  \<open>ProcessTree.InitCompactMode\<close>: \<open>skipProcesses\<close> is reset, the group map of the
  tree is used as it is (the line that would reset it is commented out in the source).
  The result is the updated tree and the global \<open>skipProcesses\<close>.
\<close>

definition InitCompactMode ::
  "('f::{zero,plus}) ProcessTree \<Rightarrow> panic + ('f ProcessTree \<times> nat set)" where
  "InitCompactMode processTree =
    (case compact_loop (TreeOptions processTree) (Nodes processTree)
            [0..<length (Nodes processTree)] (ProcessGroups processTree, {}) of
       Inl e \<Rightarrow> Inl e
     | Inr st \<Rightarrow> Inr (processTree\<lparr>ProcessGroups := fst st\<rparr>, snd st))"

text \<open>
  The standalone function \<open>InitCompactMode(processes)\<close> of the second compact-mode
  file: both globals are reset, and no metric is aggregated.
\<close>

definition func_step ::
  "('f::zero) Process \<Rightarrow> nat \<Rightarrow> 'f GroupMap \<times> nat set \<Rightarrow> 'f GroupMap \<times> nat set" where
  "func_step node pidIndex st =
    (let processGroups = fst st; skipProcesses = snd st in
     if pidIndex \<in> skipProcesses then st
     else
      (let parentPID = PPID node;
           processOwner = Username node;
           compositeKey = Signature node;
           groups1 = (if processGroups parentPID = None
                      then processGroups(parentPID \<mapsto> Map.empty) else processGroups);
           groups2 = (if at_parent groups1 parentPID compositeKey = None
                      then groups1(parentPID \<mapsto> (at_parent groups1 parentPID)(compositeKey \<mapsto> Map.empty))
                      else groups1);
           found = at_key groups2 parentPID compositeKey processOwner;
           grp = (case found of
                      None \<Rightarrow> \<lparr>Count = 1, FirstIndex = pidIndex, FullPath = [],
                                Indices = [pidIndex], Owner = processOwner, GroupAge = 0,
                                GroupCPUPercent = 0, MemoryUsage = 0, GroupNumThreads = 0\<rparr>
                    | Some g \<Rightarrow> g\<lparr>Count := Count g + 1, Indices := Indices g @ [pidIndex]\<rparr>);
           skipProcesses' = (case found of None \<Rightarrow> skipProcesses
                             | Some g \<Rightarrow> insert pidIndex skipProcesses)
       in (groups2(parentPID \<mapsto>
             (at_parent groups2 parentPID)(compositeKey \<mapsto>
                (at_key groups2 parentPID compositeKey)(processOwner \<mapsto> grp))),
           skipProcesses')))"

fun func_loop ::
  "('f::zero) Process list \<Rightarrow> nat list \<Rightarrow> 'f GroupMap \<times> nat set \<Rightarrow> 'f GroupMap \<times> nat set" where
  "func_loop processes [] st = st"
| "func_loop processes (i # is) st = func_loop processes is (func_step (processes ! i) i st)"

definition InitCompactMode_func :: "('f::zero) Process list \<Rightarrow> 'f GroupMap \<times> nat set" where
  "InitCompactMode_func processes =
     func_loop processes [0..<length processes] (Map.empty, {})"

text \<open>
  \<open>ProcessTree.GetProcessCount\<close>: the count, member PIDs and aggregates of the group
  that the node at \<open>pidIndex\<close> represents, or \<open>1\<close> and zero values when the node
  is not the first of a group. An index outside \<open>Nodes\<close> panics in Go.
\<close>

datatype index_panic = IndexOutOfRange

definition GetProcessCount ::
  "('f::zero) ProcessTree \<Rightarrow> nat
     \<Rightarrow> index_panic + (nat \<times> int32 list \<times> int64 \<times> 'f \<times> uint64 \<times> int32)" where
  "GetProcessCount processTree pidIndex =
    (if pidIndex \<ge> length (Nodes processTree) then Inl IndexOutOfRange
     else
      (let node = Nodes processTree ! pidIndex;
           parentPID = PPID node;
           processOwner = Username node;
           compositeKey = Signature node
       in case ProcessGroups processTree parentPID of
            None \<Rightarrow> Inr (1, [], 0, 0, 0, 0)
          | Some groups \<Rightarrow>
             (case (case groups compositeKey of None \<Rightarrow> None | Some b \<Rightarrow> b processOwner) of
                None \<Rightarrow> Inr (1, [], 0, 0, 0, 0)
              | Some grp \<Rightarrow>
                  if FirstIndex grp = pidIndex
                  then (if list_all (\<lambda>i. i < length (Nodes processTree)) (Indices grp)
                        then Inr (Count grp,
                                  map (\<lambda>i. PID (Nodes processTree ! i)) (Indices grp),
                                  GroupAge grp, GroupCPUPercent grp,
                                  MemoryUsage grp, GroupNumThreads grp)
                        else Inl IndexOutOfRange)
                  else Inr (1, [], 0, 0, 0, 0))))"

section \<open>Collecting processes\<close>

text \<open>
  What the operating system answers for one process: each field is the result of one
  query (\<open>None\<close> when the query returns an error; the value returned beside an
  error is never read). \<open>proc.CmdlineSlice()\<close> is called twice for a process, first by
  the closure of \<open>ProcessArgs\<close> and then, when the executable path is missing, by the
  closure of \<open>ProcessCommandName\<close>; \<open>qCmdlineSlice\<close> and \<open>qCmdlineSlice2\<close> are the
  answers to the first and to the second call. \<open>clock\<close> is what
  \<open>util.GetUnixTimestamp()\<close> returns when the \<open>Process\<close> value for this process is
  built.
\<close>

record 'f ProcInfo =
  Pid :: int32
  qCmdlineSlice :: "string list option"
  qExe :: "string option"
  qCmdlineSlice2 :: "string list option"
  qName :: "string option"
  qPpid :: "int32 option"
  qCPUPercent :: "'f option"
  qCreateTime :: "int64 option"
  qGids :: "uint32 list option"
  qGroups :: "uint32 list option"
  qMemoryInfo :: "MemoryInfoStat option"
  qNumThreads :: "int32 option"
  qGetpgid :: "int64 option"
  qUsername :: "string option"
  qUids :: "uint32 list option"
  clock :: int64

text \<open>\<open>fmt.Sprintf("%d", n)\<close> for a Go integer.\<close>

fun decimal :: "nat \<Rightarrow> string" where
  "decimal n = (if n < 10 then [''0123456789'' ! n]
                else decimal (n div 10) @ [''0123456789'' ! (n mod 10)])"

declare decimal.simps [simp del]

definition Sprintf_d :: "int \<Rightarrow> string" where
  "Sprintf_d n = (if n < 0 then CHR ''-'' # decimal (nat (- n)) else decimal (nat n))"

text \<open>
  The fetch closures. Each function below is the closure that the function of the same
  name sends over its channel, as a function from the process to \<open>Some\<close> result or
  \<open>None\<close> for an error.
\<close>

definition ProcessArgs :: "'f ProcInfo \<Rightarrow> string list option" where
  "ProcessArgs proc = qCmdlineSlice proc"

text \<open>
  \<open>ProcessCommandName\<close>: the executable path, else the first element of the command
  line, else the process name, else \<open>[PID n]\<close>. Its error result is always nil.
\<close>

definition ProcessCommandName :: "'f ProcInfo \<Rightarrow> string option" where
  "ProcessCommandName proc =
    (case (case qExe proc of None \<Rightarrow> None | Some exe \<Rightarrow> if exe \<noteq> [] then Some exe else None) of
       Some exe \<Rightarrow> Some exe
     | None \<Rightarrow>
        (case (case qCmdlineSlice2 proc of None \<Rightarrow> None | Some [] \<Rightarrow> None
               | Some (c # cs) \<Rightarrow> Some c) of
           Some c \<Rightarrow> Some c
         | None \<Rightarrow>
            (case (case qName proc of None \<Rightarrow> None
                   | Some name \<Rightarrow> if name \<noteq> [] then Some name else None) of
               Some name \<Rightarrow> Some name
             | None \<Rightarrow> Some (''[PID '' @ Sprintf_d (sint (Pid proc)) @ '']''))))"

definition ProcessPPID :: "'f ProcInfo \<Rightarrow> int32 option" where
  "ProcessPPID proc = qPpid proc"

definition ProcessCpuPercent :: "'f ProcInfo \<Rightarrow> 'f option" where
  "ProcessCpuPercent proc = qCPUPercent proc"

text \<open>\<open>ProcessCreateTime\<close>: milliseconds to seconds, Go's truncating division.\<close>

definition ProcessCreateTime :: "'f ProcInfo \<Rightarrow> int64 option" where
  "ProcessCreateTime proc =
     map_option (\<lambda>createTime. word_of_int (sint createTime sdiv 1000)) (qCreateTime proc)"

definition ProcessGIDs :: "'f ProcInfo \<Rightarrow> uint32 list option" where
  "ProcessGIDs proc = qGids proc"

text \<open>The closure of \<open>ProcessGroups\<close> (the name is taken by the field of the tree).\<close>

definition ProcessGroups_closure :: "'f ProcInfo \<Rightarrow> uint32 list option" where
  "ProcessGroups_closure proc = qGroups proc"

definition ProcessMemoryInfo :: "'f ProcInfo \<Rightarrow> MemoryInfoStat option" where
  "ProcessMemoryInfo proc = qMemoryInfo proc"

definition ProcessNumThreads :: "'f ProcInfo \<Rightarrow> int32 option" where
  "ProcessNumThreads proc = qNumThreads proc"

definition ProcessPGID :: "'f ProcInfo \<Rightarrow> int64 option" where
  "ProcessPGID proc = qGetpgid proc"

definition ProcessUsername :: "'f ProcInfo \<Rightarrow> string option" where
  "ProcessUsername proc = qUsername proc"

definition ProcessUIDs :: "'f ProcInfo \<Rightarrow> uint32 list option" where
  "ProcessUIDs proc = qUids proc"

text \<open>
  The closures that \<open>GenerateProcess\<close> receives over its channels, one per attribute.
  \<open>GenerateProcess\<close> starts \<open>go ProcessArgs(argsChannel)\<close> and so on, so that in the
  program they are the closures above (\<open>fetchers\<close>); what \<open>GenerateProcess\<close> does with
  the results does not depend on which closures they are, and \<open>GenerateProcess_with\<close>
  is its body for any closures.
\<close>

record 'f Fetchers =
  fetchArgs :: "'f ProcInfo \<Rightarrow> string list option"
  fetchCommandName :: "'f ProcInfo \<Rightarrow> string option"
  fetchPPID :: "'f ProcInfo \<Rightarrow> int32 option"
  fetchCpuPercent :: "'f ProcInfo \<Rightarrow> 'f option"
  fetchCreateTime :: "'f ProcInfo \<Rightarrow> int64 option"
  fetchGIDs :: "'f ProcInfo \<Rightarrow> uint32 list option"
  fetchGroups :: "'f ProcInfo \<Rightarrow> uint32 list option"
  fetchMemoryInfo :: "'f ProcInfo \<Rightarrow> MemoryInfoStat option"
  fetchNumThreads :: "'f ProcInfo \<Rightarrow> int32 option"
  fetchPGID :: "'f ProcInfo \<Rightarrow> int64 option"
  fetchUsername :: "'f ProcInfo \<Rightarrow> string option"
  fetchUIDs :: "'f ProcInfo \<Rightarrow> uint32 list option"

definition fetchers :: "'f Fetchers" where
  "fetchers =
     \<lparr>fetchArgs = ProcessArgs, fetchCommandName = ProcessCommandName,
      fetchPPID = ProcessPPID, fetchCpuPercent = ProcessCpuPercent,
      fetchCreateTime = ProcessCreateTime, fetchGIDs = ProcessGIDs,
      fetchGroups = ProcessGroups_closure, fetchMemoryInfo = ProcessMemoryInfo,
      fetchNumThreads = ProcessNumThreads, fetchPGID = ProcessPGID,
      fetchUsername = ProcessUsername, fetchUIDs = ProcessUIDs\<rparr>"

text \<open>
  \<open>GenerateProcess\<close>. Every goroutine of the source only hands a closure over a channel
  to the caller, which runs it at once, so the fetches happen one after the other. A
  fetch behind an option test leaves the variable at its zero value when the test fails.
  \<open>util.RoundFloat\<close> is not part of the sources and is a parameter. The fields that
  the source leaves at their zero value, and \<open>MemoryInfoEx\<close>, \<open>MemoryPercent\<close> and
  \<open>NumContextSwitches\<close> (fetched in the same way, each with a zero or \<open>-1\<close>
  default), are not modelled.
\<close>

definition GenerateProcess_with ::
  "('f \<Rightarrow> int \<Rightarrow> 'f) \<Rightarrow> 'f Fetchers \<Rightarrow> ('f::{zero,one,uminus}) ProcInfo \<Rightarrow> DisplayOptions \<Rightarrow>
   'f Process" where
  "GenerateProcess_with RoundFloat received proc miniOptions =
    (let pid = Pid proc;
         args0 = (case fetchArgs received proc of None \<Rightarrow> [] | Some argsOut \<Rightarrow> argsOut);
         command = (case fetchCommandName received proc of None \<Rightarrow> ''?''
                    | Some commandOut \<Rightarrow> commandOut);
         ppid = (case fetchPPID received proc of None \<Rightarrow> - 1 | Some ppidOut \<Rightarrow> ppidOut);
         cpuPercent =
           (if ShowCpuPercent miniOptions \<or> OrderBy miniOptions = ''cpu'' \<or> ColorAttr miniOptions = ''cpu''
            then (case fetchCpuPercent received proc of None \<Rightarrow> - 1
                  | Some cpuPercentOut \<Rightarrow> cpuPercentOut)
            else 0);
         createTime =
           (if ShowProcessAge miniOptions \<or> OrderBy miniOptions = ''age'' \<or> ColorAttr miniOptions = ''age''
            then (case fetchCreateTime received proc of None \<Rightarrow> - 1
                  | Some createTimeOut \<Rightarrow> createTimeOut)
            else 0);
         gids = (case fetchGIDs received proc of None \<Rightarrow> [] | Some gidsOut \<Rightarrow> gidsOut);
         groups = (case fetchGroups received proc of None \<Rightarrow> [] | Some groupsOut \<Rightarrow> groupsOut);
         memoryInfo =
           (if ShowMemoryUsage miniOptions \<or> OrderBy miniOptions = ''mem'' \<or> ColorAttr miniOptions = ''mem''
            then Some (case fetchMemoryInfo received proc of None \<Rightarrow> \<lparr>RSS = 0\<rparr>
                       | Some memoryInfoOut \<Rightarrow> memoryInfoOut)
            else None);
         numThreads =
           (if ShowNumThreads miniOptions \<or> OrderBy miniOptions = ''threads''
            then (case fetchNumThreads received proc of None \<Rightarrow> - 1
                  | Some numThreadsOut \<Rightarrow> numThreadsOut)
            else 0);
         pgid =
           (if ShowPGIDs miniOptions \<or> ShowPGLs miniOptions
            then (case fetchPGID received proc of None \<Rightarrow> - 1 | Some pgidOut \<Rightarrow> pgidOut)
            else 0);
         username =
           (if ShowOwner miniOptions \<or> ShowUserTransitions miniOptions \<or> OrderBy miniOptions = ''user''
            then (case fetchUsername received proc of None \<Rightarrow> ''?''
                  | Some usernameOut \<Rightarrow> usernameOut)
            else []);
         uids =
           (if ShowUIDTransitions miniOptions \<or> ShowUserTransitions miniOptions
            then (case fetchUIDs received proc of None \<Rightarrow> [] | Some uidsOut \<Rightarrow> uidsOut)
            else []);
         args = (case args0 of [] \<Rightarrow> [] | a # rest \<Rightarrow> if a = command then rest else args0)
     in \<lparr>Age = clock proc - createTime, Args = args, Child = - 1, Command = command,
         CPUPercent = RoundFloat cpuPercent 2, CreateTime = createTime, GIDs = gids,
         Groups = groups, MemoryInfo = memoryInfo, NumThreads = numThreads, Parent = - 1,
         PGID = ucast (pgid :: int64), PID = pid, PPID = ppid, Signature = [], Sister = - 1,
         UIDs = uids, Username = username\<rparr>)"

definition GenerateProcess ::
  "('f \<Rightarrow> int \<Rightarrow> 'f) \<Rightarrow> ('f::{zero,one,uminus}) ProcInfo \<Rightarrow> DisplayOptions \<Rightarrow> 'f Process" where
  "GenerateProcess RoundFloat proc miniOptions =
     GenerateProcess_with RoundFloat fetchers proc miniOptions"

section \<open>Sorting\<close>

text \<open>
  Go's \<open>sort.Slice(x, less)\<close> belongs to the standard library, not to this program. It
  is a parameter of the model: a function from the comparison and the slice to the
  reordered slice. Its documentation promises a sorted rearrangement for a \<open>less\<close> that
  is a strict weak ordering, and explicitly no stability; \<open>sort_contract\<close> states that
  promise.
\<close>

type_synonym 'a sorter = "('a \<Rightarrow> 'a \<Rightarrow> bool) \<Rightarrow> 'a list \<Rightarrow> 'a list"

definition strict_weak_order :: "('a \<Rightarrow> 'a \<Rightarrow> bool) \<Rightarrow> bool" where
  "strict_weak_order lt \<longleftrightarrow>
     (\<forall>a. \<not> lt a a) \<and>
     (\<forall>a b c. lt a b \<and> lt b c \<longrightarrow> lt a c) \<and>
     (\<forall>a b c. \<not> lt a b \<and> \<not> lt b c \<longrightarrow> \<not> lt a c)"

definition sort_contract :: "'a sorter \<Rightarrow> bool" where
  "sort_contract sort_Slice \<longleftrightarrow>
     (\<forall>lt xs. strict_weak_order lt \<longrightarrow>
        mset (sort_Slice lt xs) = mset xs \<and>
        sorted_wrt (\<lambda>a b. \<not> lt b a) (sort_Slice lt xs))"

text \<open>\<open>SortByPid\<close> on the operating system's process handles.\<close>

definition SortByPid :: "'f ProcInfo sorter \<Rightarrow> 'f ProcInfo list \<Rightarrow> 'f ProcInfo list" where
  "SortByPid sort_Slice procs = sort_Slice (\<lambda>a b. sint (Pid a) < sint (Pid b)) procs"

text \<open>
  \<open>GetProcessByPid\<close>: the first process with the given PID, or the error message.
\<close>

definition GetProcessByPid :: "'f Process list \<Rightarrow> int32 \<Rightarrow> string + 'f Process" where
  "GetProcessByPid processes pid =
     (case find (\<lambda>p. PID p = pid) processes of
        Some proc \<Rightarrow> Inr proc
      | None \<Rightarrow> Inl (''the process with the PID '' @ Sprintf_d (sint pid) @ '' was not found''))"

text \<open>The comparison functions handed to \<open>sort.Slice\<close> by the six sort operations.\<close>

definition less_Age :: "'f Process \<Rightarrow> 'f Process \<Rightarrow> bool" where
  "less_Age a b \<longleftrightarrow> sint (Age a) < sint (Age b)"

definition less_Cpu :: "('f::ord) Process \<Rightarrow> 'f Process \<Rightarrow> bool" where
  "less_Cpu a b \<longleftrightarrow> CPUPercent a < CPUPercent b"

definition less_Memory :: "(uint64 \<Rightarrow> 'f::ord) \<Rightarrow> 'f Process \<Rightarrow> 'f Process \<Rightarrow> bool" where
  "less_Memory tofloat a b \<longleftrightarrow> tofloat (rss_of a) < tofloat (rss_of b)"

text \<open>Go's \<open><\<close> on strings: bytewise lexicographic order.\<close>

fun string_less :: "string \<Rightarrow> string \<Rightarrow> bool" where
  "string_less [] [] = False"
| "string_less [] (y # ys) = True"
| "string_less (x # xs) [] = False"
| "string_less (x # xs) (y # ys) =
     ((of_char x :: nat) < of_char y \<or> (x = y \<and> string_less xs ys))"

definition less_Username :: "'f Process \<Rightarrow> 'f Process \<Rightarrow> bool" where
  "less_Username a b \<longleftrightarrow> string_less (Username a) (Username b)"

definition less_Pid :: "'f Process \<Rightarrow> 'f Process \<Rightarrow> bool" where
  "less_Pid a b \<longleftrightarrow> sint (PID a) < sint (PID b)"

definition less_NumThreads :: "'f Process \<Rightarrow> 'f Process \<Rightarrow> bool" where
  "less_NumThreads a b \<longleftrightarrow> sint (NumThreads a) < sint (NumThreads b)"

definition SortProcsByAge :: "'f Process sorter \<Rightarrow> 'f Process list \<Rightarrow> 'f Process list" where
  "SortProcsByAge sort_Slice processes = sort_Slice less_Age processes"

definition SortProcsByCpu :: "('f::ord) Process sorter \<Rightarrow> 'f Process list \<Rightarrow> 'f Process list" where
  "SortProcsByCpu sort_Slice processes = sort_Slice less_Cpu processes"

text \<open>
  \<open>SortProcsByMemory\<close> compares \<open>float64(MemoryInfo.RSS)\<close>; the conversion
  \<open>float64\<close> is a parameter. \<open>MemoryInfo\<close> is a pointer: as soon as two elements are
  compared, a nil one makes the comparison panic.
\<close>

definition SortProcsByMemory ::
  "('f::ord) Process sorter \<Rightarrow> (uint64 \<Rightarrow> 'f) \<Rightarrow> 'f Process list \<Rightarrow> panic + 'f Process list" where
  "SortProcsByMemory sort_Slice tofloat processes =
     (if length processes \<ge> 2 \<and> list_ex (\<lambda>p. MemoryInfo p = None) processes
      then Inl NilPointer
      else Inr (sort_Slice (less_Memory tofloat) processes))"

definition SortProcsByUsername :: "'f Process sorter \<Rightarrow> 'f Process list \<Rightarrow> 'f Process list" where
  "SortProcsByUsername sort_Slice processes = sort_Slice less_Username processes"

definition SortProcsByPid :: "'f Process sorter \<Rightarrow> 'f Process list \<Rightarrow> 'f Process list" where
  "SortProcsByPid sort_Slice processes = sort_Slice less_Pid processes"

definition SortProcsByNumThreads :: "'f Process sorter \<Rightarrow> 'f Process list \<Rightarrow> 'f Process list" where
  "SortProcsByNumThreads sort_Slice processes = sort_Slice less_NumThreads processes"

section \<open>The run command\<close>

text \<open>
  The package-level flag variables as the command line set them. \<open>flagUsername\<close> is
  left out: the run command only filters it through \<open>util.UserExists\<close> and
  \<open>util.DeleteSliceElement\<close>, which are not part of the sources, and copies the outcome
  into the display options; the outcome is the field \<open>usernames\<close> of the environment.
\<close>

record Flags =
  flagAge :: bool
  flagArguments :: bool
  flagColor :: bool
  flagColorAttr :: string
  flagColorScheme :: string
  flagCompactNot :: bool
  flagContains :: string
  flagCpu :: bool
  flagExcludeRoot :: bool
  flagIBM850 :: bool
  flagLevel :: int
  flagMemory :: bool
  flagOrderBy :: string
  flagPid :: int32
  flagRainbow :: bool
  flagShowAll :: bool
  flagShowOwner :: bool
  flagShowPGIDs :: bool
  flagShowPGLs :: bool
  flagShowPIDs :: bool
  flagShowPPIDs :: bool
  flagShowUIDTransitions :: bool
  flagShowUserTransitions :: bool
  flagThreads :: bool
  flagUTF8 :: bool
  flagVersion :: bool
  flagVT100 :: bool
  flagWide :: bool

text \<open>
  What the run command reads from outside: which flags were given on the command line
  (\<open>cmd.Flags().Changed\<close>), the terminal, the installed memory (\<open>None\<close>: the pointer
  returned by \<open>util.GetTotalMemory\<close> is nil), the filtered user names, and the
  processes listed by \<open>process.Processes()\<close> (\<open>None\<close>: it returns an error).
\<close>

record 'f Env =
  changedUser :: bool
  changedLevel :: bool
  colorCount :: int
  colorSupport :: bool
  screenWidth :: int
  installedMemory :: "uint64 option"
  usernames :: "string list"
  osProcesses :: "'f ProcInfo list option"

text \<open>The library functions the run command is parametrised by.\<close>

record 'f Library =
  sort_Slice_handles :: "'f ProcInfo sorter"
  sort_Slice :: "'f Process sorter"
  RoundFloat :: "'f \<Rightarrow> int \<Rightarrow> 'f"
  float64 :: "uint64 \<Rightarrow> 'f"

text \<open>
  How a run ends without a tree: an error returned to the caller, a panic, or the
  process exiting with a status (\<open>os.Exit\<close>, \<open>log.Fatalf\<close>).
\<close>

datatype run_error = Error string | Panic string | Exit int

text \<open>
  Modelled from the spec: \<open>util.BtoI\<close> and \<open>util.StoI\<close> are not part of the sources.
  Following the rule they implement (only one of \<open>--color-attr\<close>, \<open>--color\<close> and
  \<open>--rainbow\<close> can be used), \<open>BtoI\<close> is 1 for true and \<open>StoI\<close> is 1 for a non-empty
  string, and both are 0 otherwise.
\<close>

definition BtoI :: "bool \<Rightarrow> int" where
  "BtoI b = (if b then 1 else 0)"

definition StoI :: "string \<Rightarrow> int" where
  "StoI s = (if s \<noteq> [] then 1 else 0)"

text \<open>\<open>strings.Join\<close>.\<close>

fun Join :: "string list \<Rightarrow> string \<Rightarrow> string" where
  "Join [] sep = []"
| "Join [x] sep = x"
| "Join (x # y # ys) sep = x @ sep @ Join (y # ys) sep"

definition validAttributes :: "string list" where
  "validAttributes = [''age'', ''cpu'', ''mem'']"

definition validColorSchemes :: "string list" where
  "validColorSchemes = [''darwin'', ''linux'', ''powershell'', ''windows10'', ''xterm'']"

definition validOrderBy :: "string list" where
  "validOrderBy = [''age'', ''cpu'', ''mem'', ''pid'', ''threads'', ''user'']"

text \<open>The flag conflict rules 1 to 8, in the order of the source; the first that fires, if any.\<close>

definition flag_rules :: "Flags \<Rightarrow> 'f Env \<Rightarrow> string option" where
  "flag_rules flags env =
    (if changedUser env \<and> flagExcludeRoot flags
     then Some ''--user and --exclude-root cannot be used together''
     else if BtoI (flagColor flags) + BtoI (flagRainbow flags) + StoI (flagColorAttr flags) > 1
     then Some ''only one of --color-attr, --color, and --rainbow can be used''
     else if BtoI (flagIBM850 flags) + BtoI (flagUTF8 flags) + BtoI (flagVT100 flags) > 1
     then Some ''only one of --ibm-850, --utf-8, and --vt-100 can be used''
     else if flagColorAttr flags \<noteq> [] \<and> flagColorAttr flags \<notin> set validAttributes
     then Some (''valid options for --color-attr are: '' @ Join validAttributes '', '')
     else if BtoI (flagShowUIDTransitions flags) + BtoI (flagShowUserTransitions flags) > 1
     then Some ''only one of --uid-transitions and --user-transitions can be used''
     else if changedLevel env \<and> flagLevel flags < 1
     then Some ''--level cannot be set to less than 1''
     else if flagColorScheme flags \<noteq> [] \<and> flagColorScheme flags \<notin> set validColorSchemes
     then Some (''valid options for --color-scheme are: '' @ Join validColorSchemes '', '')
     else if flagColorScheme flags \<noteq> [] \<and> (flagColorAttr flags \<noteq> [] \<or> flagRainbow flags)
     then Some ''--color-scheme cannot be used with --color-attr or --rainbow''
     else None)"

definition show_all :: "Flags \<Rightarrow> Flags" where
  "show_all flags =
    (if flagShowAll flags
     then flags\<lparr>flagAge := True, flagArguments := True, flagCpu := True, flagMemory := True,
                flagShowOwner := True, flagShowPGLs := True, flagShowPIDs := True,
                flagShowPPIDs := True, flagThreads := True\<rparr>
     else flags)"

text \<open>The zero value of \<open>DisplayOptions\<close>, and the \<open>miniOptions\<close> literal of the run command.\<close>

definition zero_DisplayOptions :: DisplayOptions where
  "zero_DisplayOptions =
     \<lparr>ColorAttr = [], ColorCount = 0, ColorizeOutput = False, ColorScheme = [],
      ColorSupport = False, CompactMode = False, Contains = [], ExcludeRoot = False,
      IBM850Graphics = False, InstalledMemory = 0, MaxDepth = 0, OrderBy = [],
      RainbowOutput = False, RootPID = 0, ScreenWidth = 0, ShowArguments = False,
      ShowCpuPercent = False, ShowMemoryUsage = False, ShowNumThreads = False,
      ShowOwner = False, ShowPGIDs = False, ShowPGLs = False, ShowPIDs = False,
      ShowPPIDs = False, ShowProcessAge = False, ShowUIDTransitions = False,
      ShowUserTransitions = False, Usernames = [], UTF8Graphics = False,
      VT100Graphics = False, WideDisplay = False\<rparr>"

definition miniOptions_of :: "Flags \<Rightarrow> 'f Env \<Rightarrow> DisplayOptions" where
  "miniOptions_of flags env =
     zero_DisplayOptions\<lparr>ColorAttr := flagColorAttr flags, OrderBy := flagOrderBy flags,
       ShowArguments := flagArguments flags, ShowCpuPercent := flagCpu flags,
       ShowMemoryUsage := flagMemory flags, ShowNumThreads := flagThreads flags,
       ShowOwner := flagShowOwner flags, ShowPGIDs := flagShowPGIDs flags,
       ShowPGLs := flagShowPGLs flags, ShowProcessAge := flagAge flags,
       ShowUIDTransitions := flagShowUIDTransitions flags,
       ShowUserTransitions := flagShowUserTransitions flags, Usernames := usernames env\<rparr>"

text \<open>
  \<open>GetProcesses\<close> appends one \<open>Process\<close> per listed process, in PID order, to
  \<open>processes\<close>; \<open>log.Fatalf\<close> ends the program with status 1 when listing fails.
\<close>

definition GetProcesses ::
  "('f::{zero,one,uminus}) Library \<Rightarrow> 'f Env \<Rightarrow> 'f Process list \<Rightarrow> DisplayOptions
     \<Rightarrow> run_error + 'f Process list" where
  "GetProcesses lib env processes miniOptions =
     (case osProcesses env of
        None \<Rightarrow> Inl (Exit 1)
      | Some unsorted \<Rightarrow>
          Inr (processes @ map (\<lambda>p. GenerateProcess (RoundFloat lib) p miniOptions)
                              (SortByPid (sort_Slice_handles lib) unsorted)))"

text \<open>
  The block \<open>if flagOrderBy != ""\<close>: the sort key is validated, the process with PID 1
  is looked up (a failure panics), \<open>processes\<close> is sorted by the key, and the new
  sequence is that process followed by every process whose PID is not 1. The result is
  the flags (the key switches on the matching column) and the new \<open>processes\<close>.
\<close>

definition order_processes ::
  "('f::ord) Library \<Rightarrow> Flags \<Rightarrow> 'f Process list \<Rightarrow> run_error + (Flags \<times> 'f Process list)" where
  "order_processes lib flags processes =
    (if flagOrderBy flags = [] then Inr (flags, processes)
     else if flagOrderBy flags \<notin> set validOrderBy
     then Inl (Error (''valid options for --order-by are: '' @ Join validOrderBy '', ''))
     else
      (case GetProcessByPid processes 1 of
         Inl err \<Rightarrow> Inl (Panic err)
       | Inr proc \<Rightarrow>
          (let sorted = [proc];
               keep = filter (\<lambda>p. PID p \<noteq> 1)
           in if flagOrderBy flags = ''age''
              then Inr (flags\<lparr>flagAge := True\<rparr>,
                        sorted @ keep (SortProcsByAge (sort_Slice lib) processes))
              else if flagOrderBy flags = ''cpu''
              then Inr (flags\<lparr>flagCpu := True\<rparr>,
                        sorted @ keep (SortProcsByCpu (sort_Slice lib) processes))
              else if flagOrderBy flags = ''mem''
              then (case SortProcsByMemory (sort_Slice lib) (float64 lib) processes of
                      Inl e \<Rightarrow> Inl (Panic ''nil pointer dereference'')
                    | Inr ps \<Rightarrow> Inr (flags\<lparr>flagMemory := True\<rparr>, sorted @ keep ps))
              else if flagOrderBy flags = ''pid''
              then Inr (flags\<lparr>flagShowPIDs := True\<rparr>,
                        sorted @ keep (SortProcsByPid (sort_Slice lib) processes))
              else if flagOrderBy flags = ''threads''
              then Inr (flags\<lparr>flagThreads := True\<rparr>,
                        sorted @ keep (SortProcsByNumThreads (sort_Slice lib) processes))
              else if flagOrderBy flags = ''user''
              then Inr (flags\<lparr>flagShowOwner := True\<rparr>,
                        sorted @ keep (SortProcsByUsername (sort_Slice lib) processes))
              else Inr (flags, processes @ keep processes))))"

text \<open>The \<open>displayOptions\<close> literal, after the last three flag adjustments.\<close>

definition displayOptions_of :: "Flags \<Rightarrow> 'f Env \<Rightarrow> run_error + DisplayOptions" where
  "displayOptions_of flags0 env =
    (let flags1 = (if flagColorScheme flags0 \<noteq> [] then flags0\<lparr>flagColor := True\<rparr> else flags0);
         flags2 = (if flagLevel flags1 = 0 then flags1\<lparr>flagLevel := 999\<rparr> else flags1);
         flags = (if flagColorAttr flags2 \<noteq> [] \<or> flagContains flags2 \<noteq> []
                  then flags2\<lparr>flagCompactNot := True\<rparr> else flags2)
     in case installedMemory env of
          None \<Rightarrow> Inl (Panic ''nil pointer dereference'')
        | Some totalMemory \<Rightarrow>
            Inr \<lparr>ColorAttr = flagColorAttr flags, ColorCount = colorCount env,
                 ColorizeOutput = flagColor flags, ColorScheme = flagColorScheme flags,
                 ColorSupport = colorSupport env, CompactMode = (\<not> flagCompactNot flags),
                 Contains = flagContains flags, ExcludeRoot = flagExcludeRoot flags,
                 IBM850Graphics = flagIBM850 flags, InstalledMemory = totalMemory,
                 MaxDepth = flagLevel flags, OrderBy = flagOrderBy flags,
                 RainbowOutput = flagRainbow flags, RootPID = flagPid flags,
                 ScreenWidth = screenWidth env, ShowArguments = flagArguments flags,
                 ShowCpuPercent = flagCpu flags, ShowMemoryUsage = flagMemory flags,
                 ShowNumThreads = flagThreads flags, ShowOwner = flagShowOwner flags,
                 ShowPGIDs = flagShowPGIDs flags, ShowPGLs = flagShowPGLs flags,
                 ShowPIDs = flagShowPIDs flags, ShowPPIDs = flagShowPPIDs flags,
                 ShowProcessAge = flagAge flags,
                 ShowUIDTransitions = flagShowUIDTransitions flags,
                 ShowUserTransitions = flagShowUserTransitions flags,
                 Usernames = usernames env, UTF8Graphics = flagUTF8 flags,
                 VT100Graphics = flagVT100 flags, WideDisplay = flagWide flags\<rparr>)"

text \<open>
  \<open>pstreeRunCmd\<close> up to the call of \<open>pstree.NewProcessTree\<close>: the result \<open>Inr\<close> is
  the pair of display options and processes the tree is built from (building, marking,
  pruning and printing it are not part of the sources). The version flag prints the
  version and leaves with \<open>os.Exit(0)\<close>.
\<close>

definition pstreeRunCmd ::
  "('f::{zero,one,uminus,ord}) Library \<Rightarrow> Flags \<Rightarrow> 'f Env
     \<Rightarrow> run_error + (DisplayOptions \<times> 'f Process list)" where
  "pstreeRunCmd lib flags0 env =
    (case flag_rules flags0 env of
       Some msg \<Rightarrow> Inl (Error msg)
     | None \<Rightarrow>
        if flagVersion flags0 then Inl (Exit 0)
        else
         (let flags1 = show_all flags0;
              miniOptions = miniOptions_of flags1 env
          in case GetProcesses lib env [] miniOptions of
               Inl e \<Rightarrow> Inl e
             | Inr processes \<Rightarrow>
                (case order_processes lib flags1 processes of
                   Inl e \<Rightarrow> Inl e
                 | Inr (flags2, processes') \<Rightarrow>
                    (case displayOptions_of flags2 env of
                       Inl e \<Rightarrow> Inl e
                     | Inr displayOptions \<Rightarrow> Inr (displayOptions, processes')))))"

section \<open>Go's \<open>sort.Slice\<close>\<close>

text \<open>
  The six sort operations call \<open>sort.Slice\<close> of Go's standard library. It is not
  part of this program; what follows transcribes the algorithm of package \<open>sort\<close>
  (Go 1.19 and later, \<open>pdqsort_func\<close> and its helpers), so that the behaviour of
  the sort operations on equal keys can be computed. The slice is a list, \<open>data.Less(i, j)\<close>
  is \<open>lt (data ! i) (data ! j)\<close>, and \<open>data.Swap(i, j)\<close> is \<open>Swap data i j\<close>.
  \<open>pdqsort_func\<close> takes fuel for its loop and its recursive calls and returns
  \<open>None\<close> when the fuel runs out; each iteration shortens the range it works on, so one
  unit per element is enough.
\<close>

definition Swap :: "'a list \<Rightarrow> nat \<Rightarrow> nat \<Rightarrow> 'a list" where
  "Swap data i j = data[i := data ! j, j := data ! i]"

text \<open>\<open>insertionSort_func\<close>: the inner loop moves \<open>data[j]\<close> to the left while it is smaller than its left neighbour and \<open>j > a\<close>.\<close>

fun insertion_shift :: "('a \<Rightarrow> 'a \<Rightarrow> bool) \<Rightarrow> nat \<Rightarrow> 'a list \<Rightarrow> nat \<Rightarrow> 'a list" where
  "insertion_shift lt a data 0 = data"
| "insertion_shift lt a data (Suc j) =
     (if Suc j > a \<and> lt (data ! Suc j) (data ! j)
      then insertion_shift lt a (Swap data (Suc j) j) j else data)"

definition insertionSort_func :: "('a \<Rightarrow> 'a \<Rightarrow> bool) \<Rightarrow> 'a list \<Rightarrow> nat \<Rightarrow> nat \<Rightarrow> 'a list" where
  "insertionSort_func lt data a b = foldl (insertion_shift lt a) data [a + 1..<b]"

text \<open>\<open>siftDown_func\<close> and \<open>heapSort_func\<close>.\<close>

function siftDown_func :: "('a \<Rightarrow> 'a \<Rightarrow> bool) \<Rightarrow> 'a list \<Rightarrow> nat \<Rightarrow> nat \<Rightarrow> nat \<Rightarrow> 'a list" where
  "siftDown_func lt data root hi first =
     (if 2 * root + 1 \<ge> hi then data
      else if 2 * root + 2 < hi \<and> lt (data ! (first + (2 * root + 1))) (data ! (first + (2 * root + 1) + 1))
      then (if \<not> lt (data ! (first + root)) (data ! (first + (2 * root + 2))) then data
            else siftDown_func lt (Swap data (first + root) (first + (2 * root + 2))) (2 * root + 2) hi first)
      else (if \<not> lt (data ! (first + root)) (data ! (first + (2 * root + 1))) then data
            else siftDown_func lt (Swap data (first + root) (first + (2 * root + 1))) (2 * root + 1) hi first))"
  by pat_completeness auto
termination
  by (relation "measure (\<lambda>(lt, data, root, hi, first). hi - root)") auto

declare siftDown_func.simps [simp del]

definition heapSort_func :: "('a \<Rightarrow> 'a \<Rightarrow> bool) \<Rightarrow> 'a list \<Rightarrow> nat \<Rightarrow> nat \<Rightarrow> 'a list" where
  "heapSort_func lt data a b =
     (let first = a; lo = 0; hi = b - a;
          heap = foldl (\<lambda>d i. siftDown_func lt d i hi first) data (rev [0..<(hi - 1) div 2 + 1])
      in foldl (\<lambda>d i. siftDown_func lt (Swap d first (first + i)) lo i first) heap (rev [0..<hi]))"

text \<open>\<open>choosePivot_func\<close> with \<open>order2_func\<close>, \<open>median_func\<close> and \<open>medianAdjacent_func\<close>; the counter \<open>swaps\<close> is threaded through.\<close>

datatype sortedHint = unknownHint | increasingHint | decreasingHint

definition order2_func :: "('a \<Rightarrow> 'a \<Rightarrow> bool) \<Rightarrow> 'a list \<Rightarrow> nat \<Rightarrow> nat \<Rightarrow> nat \<Rightarrow> nat \<times> nat \<times> nat" where
  "order2_func lt data a b swaps =
     (if lt (data ! b) (data ! a) then (b, a, swaps + 1) else (a, b, swaps))"

definition median_func :: "('a \<Rightarrow> 'a \<Rightarrow> bool) \<Rightarrow> 'a list \<Rightarrow> nat \<Rightarrow> nat \<Rightarrow> nat \<Rightarrow> nat \<Rightarrow> nat \<times> nat" where
  "median_func lt data a b c swaps =
     (case order2_func lt data a b swaps of (a1, b1, s1) \<Rightarrow>
      case order2_func lt data b1 c s1 of (b2, c2, s2) \<Rightarrow>
      case order2_func lt data a1 b2 s2 of (a3, b3, s3) \<Rightarrow> (b3, s3))"

definition medianAdjacent_func :: "('a \<Rightarrow> 'a \<Rightarrow> bool) \<Rightarrow> 'a list \<Rightarrow> nat \<Rightarrow> nat \<Rightarrow> nat \<times> nat" where
  "medianAdjacent_func lt data a swaps = median_func lt data (a - 1) a (a + 1) swaps"

definition choosePivot_func :: "('a \<Rightarrow> 'a \<Rightarrow> bool) \<Rightarrow> 'a list \<Rightarrow> nat \<Rightarrow> nat \<Rightarrow> nat \<times> sortedHint" where
  "choosePivot_func lt data a b =
     (let l = b - a;
          i = a + l div 4 * 1;
          j = a + l div 4 * 2;
          k = a + l div 4 * 3
      in case (if l \<ge> 8
               then (case (if l \<ge> 50
                           then (case medianAdjacent_func lt data i 0 of (i1, s1) \<Rightarrow>
                                 case medianAdjacent_func lt data j s1 of (j1, s2) \<Rightarrow>
                                 case medianAdjacent_func lt data k s2 of (k1, s3) \<Rightarrow> (i1, j1, k1, s3))
                           else (i, j, k, 0)) of
                       (i', j', k', s) \<Rightarrow> median_func lt data i' j' k' s)
               else (j, 0)) of
           (pivot, swaps) \<Rightarrow>
             (pivot, if swaps = 0 then increasingHint
                     else if swaps = 4 * 3 then decreasingHint else unknownHint))"

text \<open>\<open>reverseRange_func\<close>.\<close>

function reverse_loop :: "'a list \<Rightarrow> nat \<Rightarrow> nat \<Rightarrow> 'a list" where
  "reverse_loop data i j = (if i < j then reverse_loop (Swap data i j) (i + 1) (j - 1) else data)"
  by pat_completeness auto
termination
  by (relation "measure (\<lambda>(data, i, j). j - i)") auto

declare reverse_loop.simps [simp del]

definition reverseRange_func :: "'a list \<Rightarrow> nat \<Rightarrow> nat \<Rightarrow> 'a list" where
  "reverseRange_func data a b = reverse_loop data a (b - 1)"

text \<open>The two scanning loops of the partition functions: \<open>for i <= j && P(i) { i++ }\<close> and \<open>for i <= j && P(j) { j-- }\<close> (there \<open>i\<close> is at least 1, so \<open>j\<close> stays a natural number).\<close>

function scan_up :: "(nat \<Rightarrow> bool) \<Rightarrow> nat \<Rightarrow> nat \<Rightarrow> nat" where
  "scan_up P i j = (if i \<le> j \<and> P i then scan_up P (i + 1) j else i)"
  by pat_completeness auto
termination
  by (relation "measure (\<lambda>(P, i, j). Suc j - i)") auto

declare scan_up.simps [simp del]

fun scan_down :: "(nat \<Rightarrow> bool) \<Rightarrow> nat \<Rightarrow> nat \<Rightarrow> nat" where
  "scan_down P i 0 = 0"
| "scan_down P i (Suc j) = (if i \<le> Suc j \<and> P (Suc j) then scan_down P i j else Suc j)"

lemma scan_up_ge: "i \<le> scan_up P i j"
  by (induction P i j rule: scan_up.induct) (subst scan_up.simps, auto intro: Suc_leD)

lemma scan_down_le: "scan_down P i j \<le> j"
  by (induction j) auto

text \<open>\<open>partition_func\<close>: the result is the slice, the new pivot index and \<open>alreadyPartitioned\<close>.\<close>

function partition_loop ::
  "('a \<Rightarrow> 'a \<Rightarrow> bool) \<Rightarrow> 'a list \<Rightarrow> nat \<Rightarrow> nat \<Rightarrow> nat \<Rightarrow> 'a list \<times> nat" where
  "partition_loop lt data a i0 j0 =
     (let i = scan_up (\<lambda>k. lt (data ! k) (data ! a)) i0 j0;
          j = scan_down (\<lambda>k. \<not> lt (data ! k) (data ! a)) i j0
      in if i > j then (data, j)
         else partition_loop lt (Swap data i j) a (i + 1) (j - 1))"
  by pat_completeness auto
termination
proof (relation "measure (\<lambda>(lt, data, a, i, j). Suc j - i)", goal_cases)
  case 1
  then show ?case by simp
next
  case (2 lt data a i0 j0 i j)
  have "i0 \<le> i" unfolding 2(1) by (rule scan_up_ge)
  moreover have "j \<le> j0" unfolding 2(2) by (rule scan_down_le)
  ultimately show ?case using 2(3) by simp
qed

declare partition_loop.simps [simp del]

definition partition_func ::
  "('a \<Rightarrow> 'a \<Rightarrow> bool) \<Rightarrow> 'a list \<Rightarrow> nat \<Rightarrow> nat \<Rightarrow> nat \<Rightarrow> 'a list \<times> nat \<times> bool" where
  "partition_func lt data0 a b pivot =
     (let data = Swap data0 a pivot;
          i = scan_up (\<lambda>k. lt (data ! k) (data ! a)) (a + 1) (b - 1);
          j = scan_down (\<lambda>k. \<not> lt (data ! k) (data ! a)) i (b - 1)
      in if i > j then (Swap data j a, j, True)
         else (case partition_loop lt (Swap data i j) a (i + 1) (j - 1) of
                 (data', j') \<Rightarrow> (Swap data' j' a, j', False)))"

text \<open>\<open>partitionEqual_func\<close>.\<close>

function partitionEqual_loop ::
  "('a \<Rightarrow> 'a \<Rightarrow> bool) \<Rightarrow> 'a list \<Rightarrow> nat \<Rightarrow> nat \<Rightarrow> nat \<Rightarrow> 'a list \<times> nat" where
  "partitionEqual_loop lt data a i0 j0 =
     (let i = scan_up (\<lambda>k. \<not> lt (data ! a) (data ! k)) i0 j0;
          j = scan_down (\<lambda>k. lt (data ! a) (data ! k)) i j0
      in if i > j then (data, i)
         else partitionEqual_loop lt (Swap data i j) a (i + 1) (j - 1))"
  by pat_completeness auto
termination
proof (relation "measure (\<lambda>(lt, data, a, i, j). Suc j - i)", goal_cases)
  case 1
  then show ?case by simp
next
  case (2 lt data a i0 j0 i j)
  have "i0 \<le> i" unfolding 2(1) by (rule scan_up_ge)
  moreover have "j \<le> j0" unfolding 2(2) by (rule scan_down_le)
  ultimately show ?case using 2(3) by simp
qed

declare partitionEqual_loop.simps [simp del]

definition partitionEqual_func ::
  "('a \<Rightarrow> 'a \<Rightarrow> bool) \<Rightarrow> 'a list \<Rightarrow> nat \<Rightarrow> nat \<Rightarrow> nat \<Rightarrow> 'a list \<times> nat" where
  "partitionEqual_func lt data0 a b pivot =
     partitionEqual_loop lt (Swap data0 a pivot) a (a + 1) (b - 1)"

text \<open>\<open>partialInsertionSort_func\<close>: its two shifting loops, the scan for the next out-of-order pair, and the outer loop of at most \<open>maxSteps = 5\<close> rounds.\<close>

fun shift_smaller :: "('a \<Rightarrow> 'a \<Rightarrow> bool) \<Rightarrow> 'a list \<Rightarrow> nat \<Rightarrow> 'a list" where
  "shift_smaller lt data 0 = data"
| "shift_smaller lt data (Suc j) =
     (if \<not> lt (data ! Suc j) (data ! j) then data
      else shift_smaller lt (Swap data (Suc j) j) j)"

function shift_greater :: "('a \<Rightarrow> 'a \<Rightarrow> bool) \<Rightarrow> 'a list \<Rightarrow> nat \<Rightarrow> nat \<Rightarrow> 'a list" where
  "shift_greater lt data j b =
     (if j < b
      then (if \<not> lt (data ! j) (data ! (j - 1)) then data
            else shift_greater lt (Swap data j (j - 1)) (j + 1) b)
      else data)"
  by pat_completeness auto
termination
  by (relation "measure (\<lambda>(lt, data, j, b). b - j)") auto

declare shift_greater.simps [simp del]

function advance_sorted :: "('a \<Rightarrow> 'a \<Rightarrow> bool) \<Rightarrow> 'a list \<Rightarrow> nat \<Rightarrow> nat \<Rightarrow> nat" where
  "advance_sorted lt data i b =
     (if i < b \<and> \<not> lt (data ! i) (data ! (i - 1)) then advance_sorted lt data (i + 1) b else i)"
  by pat_completeness auto
termination
  by (relation "measure (\<lambda>(lt, data, i, b). b - i)") auto

declare advance_sorted.simps [simp del]

fun partial_loop ::
  "nat \<Rightarrow> ('a \<Rightarrow> 'a \<Rightarrow> bool) \<Rightarrow> 'a list \<Rightarrow> nat \<Rightarrow> nat \<Rightarrow> nat \<Rightarrow> 'a list \<times> bool" where
  "partial_loop 0 lt data a b i = (data, False)"
| "partial_loop (Suc steps) lt data a b i0 =
     (let i = advance_sorted lt data i0 b
      in if i = b then (data, True)
         else if b - a < 50 then (data, False)
         else
          (let data1 = Swap data i (i - 1);
               data2 = (if i - a \<ge> 2 then shift_smaller lt data1 (i - 1) else data1);
               data3 = (if b - i \<ge> 2 then shift_greater lt data2 (i + 1) b else data2)
           in partial_loop steps lt data3 a b i))"

definition partialInsertionSort_func ::
  "('a \<Rightarrow> 'a \<Rightarrow> bool) \<Rightarrow> 'a list \<Rightarrow> nat \<Rightarrow> nat \<Rightarrow> 'a list \<times> bool" where
  "partialInsertionSort_func lt data a b = partial_loop 5 lt data a b (a + 1)"

text \<open>\<open>breakPatterns_func\<close> with \<open>bits.Len\<close>, the \<open>xorshift\<close> generator and \<open>nextPowerOfTwo\<close>.\<close>

fun bits_Len :: "nat \<Rightarrow> nat" where
  "bits_Len n = (if n = 0 then 0 else Suc (bits_Len (n div 2)))"

definition xorshift_Next :: "64 word \<Rightarrow> 64 word" where
  "xorshift_Next r =
     (let r1 = r XOR push_bit 13 r;
          r2 = r1 XOR drop_bit 7 r1
      in r2 XOR push_bit 17 r2)"

definition breakPatterns_func :: "'a list \<Rightarrow> nat \<Rightarrow> nat \<Rightarrow> 'a list" where
  "breakPatterns_func data a b =
     (let length = b - a in
      if length \<ge> 8
      then
       (let modulus = (2 ^ bits_Len length :: 64 word);
            idx = a + (length div 4) * 2 - 1;
            step = (\<lambda>(d, random) i.
                      let random' = xorshift_Next random;
                          other0 = unat (random' AND (modulus - 1));
                          other = (if other0 \<ge> length then other0 - length else other0)
                      in (Swap d (idx + i) (a + other), random'))
        in fst (foldl step (data, of_nat length) [0, 1, 2]))
      else data)"

text \<open>\<open>pdqsort_func\<close>: one equation is one iteration of its loop; the locals \<open>wasBalanced\<close> and \<open>wasPartitioned\<close> are arguments, \<open>True\<close> in every fresh call.\<close>

fun pdqsort_func ::
  "nat \<Rightarrow> ('a \<Rightarrow> 'a \<Rightarrow> bool) \<Rightarrow> 'a list \<Rightarrow> nat \<Rightarrow> nat \<Rightarrow> nat \<Rightarrow> bool \<Rightarrow> bool \<Rightarrow> 'a list option" where
  "pdqsort_func 0 lt data a b limit wasBalanced wasPartitioned = None"
| "pdqsort_func (Suc fuel) lt data a b limit wasBalanced wasPartitioned =
     (if b - a \<le> 12 then Some (insertionSort_func lt data a b)
      else if limit = 0 then Some (heapSort_func lt data a b)
      else
       (let data1 = (if \<not> wasBalanced then breakPatterns_func data a b else data);
            limit1 = (if \<not> wasBalanced then limit - 1 else limit);
            chosen = choosePivot_func lt data1 a b;
            data2 = (if snd chosen = decreasingHint then reverseRange_func data1 a b else data1);
            pivot = (if snd chosen = decreasingHint then (b - 1) - (fst chosen - a) else fst chosen);
            hint = (if snd chosen = decreasingHint then increasingHint else snd chosen);
            tried = (if wasBalanced \<and> wasPartitioned \<and> hint = increasingHint
                     then partialInsertionSort_func lt data2 a b else (data2, False));
            data3 = fst tried
        in if snd tried then Some data3
           else if a > 0 \<and> \<not> lt (data3 ! (a - 1)) (data3 ! pivot)
           then (case partitionEqual_func lt data3 a b pivot of
                   (data4, mid) \<Rightarrow>
                     pdqsort_func fuel lt data4 mid b limit1 wasBalanced wasPartitioned)
           else (case partition_func lt data3 a b pivot of
                   (data4, mid, alreadyPartitioned) \<Rightarrow>
                     if mid - a < b - mid
                     then (case pdqsort_func fuel lt data4 a mid limit1 True True of
                             None \<Rightarrow> None
                           | Some data5 \<Rightarrow>
                               pdqsort_func fuel lt data5 (mid + 1) b limit1
                                 (mid - a \<ge> (b - a) div 8) alreadyPartitioned)
                     else (case pdqsort_func fuel lt data4 (mid + 1) b limit1 True True of
                             None \<Rightarrow> None
                           | Some data5 \<Rightarrow>
                               pdqsort_func fuel lt data5 a mid limit1
                                 (b - mid \<ge> (b - a) div 8) alreadyPartitioned))))"

text \<open>\<open>sort.Slice\<close> itself, and the same as a total function for the sort operations.\<close>

definition go_sort_Slice :: "('a \<Rightarrow> 'a \<Rightarrow> bool) \<Rightarrow> 'a list \<Rightarrow> 'a list option" where
  "go_sort_Slice lt x =
     pdqsort_func (Suc (length x)) lt x 0 (length x) (bits_Len (length x)) True True"

definition go_sorter :: "'a sorter" where
  "go_sorter lt x = (case go_sort_Slice lt x of Some data \<Rightarrow> data | None \<Rightarrow> x)"

section \<open>Auxiliary definitions for the proofs\<close>

text \<open>
  The three assignments that end an iteration of the grouping loop amount to one store
  into the three-level map; \<open>base_group\<close> is the group before its metrics are
  updated. \<open>members_upto\<close> lists the indices below \<open>k\<close> of the nodes with a given
  parent PID, signature and owner, \<open>expected_group\<close> is the group that the loop has
  built from such a list, and \<open>compact_inv\<close> is the loop invariant.
\<close>

definition store :: "'f GroupMap \<Rightarrow> int32 \<Rightarrow> string \<Rightarrow> string \<Rightarrow> 'f ProcessGroup \<Rightarrow> 'f GroupMap" where
  "store m p k ow g = m(p \<mapsto> (at_parent m p)(k \<mapsto> (at_key m p k)(ow \<mapsto> g)))"

definition base_group :: "('f::zero) GroupMap \<Rightarrow> 'f Process \<Rightarrow> nat \<Rightarrow> 'f ProcessGroup" where
  "base_group m node i =
     (case at_key m (PPID node) (Signature node) (Username node) of
        None \<Rightarrow> \<lparr>Count = 1, FirstIndex = i, FullPath = [], Indices = [i],
                  Owner = Username node, GroupAge = 0, GroupCPUPercent = 0,
                  MemoryUsage = 0, GroupNumThreads = 0\<rparr>
      | Some g \<Rightarrow> g\<lparr>Count := Count g + 1, Indices := Indices g @ [i]\<rparr>)"

definition members_upto :: "'f Process list \<Rightarrow> nat \<Rightarrow> int32 \<Rightarrow> string \<Rightarrow> string \<Rightarrow> nat list" where
  "members_upto ns k p s ow =
     filter (\<lambda>i. PPID (ns ! i) = p \<and> Signature (ns ! i) = s \<and> Username (ns ! i) = ow) [0..<k]"

definition expected_group ::
  "DisplayOptions \<Rightarrow> ('f::{zero,plus}) Process list \<Rightarrow> string \<Rightarrow> nat list \<Rightarrow> 'f ProcessGroup" where
  "expected_group opts ns ow is =
     \<lparr>Count = length is, FirstIndex = hd is, FullPath = [], Indices = is, Owner = ow,
      GroupAge = (if ShowProcessAge opts then foldl max_int64 0 (map (\<lambda>i. Age (ns ! i)) is) else 0),
      GroupCPUPercent =
        (if ShowCpuPercent opts then foldl (+) 0 (map (\<lambda>i. CPUPercent (ns ! i)) is) else 0),
      MemoryUsage = (if ShowMemoryUsage opts then foldl (+) 0 (map (\<lambda>i. rss_of (ns ! i)) is) else 0),
      GroupNumThreads =
        (if ShowNumThreads opts then foldl (+) 0 (map (\<lambda>i. NumThreads (ns ! i)) is) else 0)\<rparr>"

definition compact_inv ::
  "DisplayOptions \<Rightarrow> ('f::{zero,plus}) Process list \<Rightarrow> nat \<Rightarrow> 'f GroupMap \<times> nat set \<Rightarrow> bool" where
  "compact_inv opts ns k st \<longleftrightarrow>
     (\<forall>p s ow. at_key (fst st) p s ow =
        (if members_upto ns k p s ow = [] then None
         else Some (expected_group opts ns ow (members_upto ns k p s ow)))) \<and>
     (\<forall>p. dom (at_parent (fst st) p) = {s. \<exists>i<k. PPID (ns ! i) = p \<and> Signature (ns ! i) = s}) \<and>
     snd st = {i. i < k \<and> members_upto ns i (PPID (ns ! i)) (Signature (ns ! i)) (Username (ns ! i)) \<noteq> []}"

text \<open>The sum of \<open>Count\<close> over all groups stored under a parent PID.\<close>

definition group_count_total :: "'f GroupMap \<Rightarrow> int32 \<Rightarrow> nat" where
  "group_count_total m p =
     (\<Sum>s\<in>dom (at_parent m p). \<Sum>ow\<in>dom (at_key m p s). Count (the (at_key m p s ow)))"

text \<open>A group without its aggregate metrics, as the standalone function builds it.\<close>

definition strip_metrics :: "('f::zero) ProcessGroup \<Rightarrow> 'f ProcessGroup" where
  "strip_metrics g = g\<lparr>GroupAge := 0, GroupCPUPercent := 0, MemoryUsage := 0, GroupNumThreads := 0\<rparr>"

text \<open>The comparison that belongs to a sort key of \<open>validOrderBy\<close>.\<close>

definition less_by_key :: "(uint64 \<Rightarrow> 'f::ord) \<Rightarrow> string \<Rightarrow> 'f Process \<Rightarrow> 'f Process \<Rightarrow> bool" where
  "less_by_key tofloat key =
     (if key = ''age'' then less_Age
      else if key = ''cpu'' then less_Cpu
      else if key = ''mem'' then less_Memory tofloat
      else if key = ''pid'' then less_Pid
      else if key = ''threads'' then less_NumThreads
      else less_Username)"

text \<open>
  A sort function that meets \<open>sort_contract\<close>, used where a concrete one is needed:
  insertion of each element before the first strictly greater one.
\<close>

fun insert_by :: "('a \<Rightarrow> 'a \<Rightarrow> bool) \<Rightarrow> 'a \<Rightarrow> 'a list \<Rightarrow> 'a list" where
  "insert_by lt x [] = [x]"
| "insert_by lt x (y # ys) = (if lt x y then x # y # ys else y # insert_by lt x ys)"

definition insertion_sort :: "'a sorter" where
  "insertion_sort lt xs = foldl (\<lambda>acc x. insert_by lt x acc) [] xs"

text \<open>The conditions of a run that the error handling is about.\<close>

definition color_conflict :: "Flags \<Rightarrow> bool" where
  "color_conflict flags \<longleftrightarrow>
     (flagColorAttr flags \<noteq> [] \<and> (flagRainbow flags \<or> flagColor flags)) \<or>
     (flagColorScheme flags \<noteq> [] \<and> (flagColorAttr flags \<noteq> [] \<or> flagRainbow flags))"

definition invalid_color_value :: "Flags \<Rightarrow> bool" where
  "invalid_color_value flags \<longleftrightarrow>
     (flagColorAttr flags \<noteq> [] \<and> flagColorAttr flags \<notin> set validAttributes) \<or>
     (flagColorScheme flags \<noteq> [] \<and> flagColorScheme flags \<notin> set validColorSchemes)"

definition invalid_sort_key :: "Flags \<Rightarrow> bool" where
  "invalid_sort_key flags \<longleftrightarrow>
     flagOrderBy flags \<noteq> [] \<and> flagOrderBy flags \<notin> set validOrderBy"

section \<open>Example inputs\<close>

definition example_node ::
  "int32 \<Rightarrow> int32 \<Rightarrow> string \<Rightarrow> string \<Rightarrow> int64 \<Rightarrow> int \<Rightarrow> uint64 \<Rightarrow> int32 \<Rightarrow> int Process" where
  "example_node pid ppid sig user age cpu rss threads =
     \<lparr>Age = age, Args = [], Child = - 1, Command = sig, CPUPercent = cpu, CreateTime = 0,
      GIDs = [], Groups = [], MemoryInfo = Some \<lparr>RSS = rss\<rparr>, NumThreads = threads,
      Parent = - 1, PGID = 0, PID = pid, PPID = ppid, Signature = sig, Sister = - 1,
      UIDs = [], Username = user\<rparr>"

definition plain_options :: DisplayOptions where
  "plain_options =
     \<lparr>ColorAttr = [], ColorCount = 0, ColorizeOutput = False, ColorScheme = [],
      ColorSupport = False, CompactMode = True, Contains = [], ExcludeRoot = False,
      IBM850Graphics = False, InstalledMemory = 0, MaxDepth = 999, OrderBy = [],
      RainbowOutput = False, RootPID = 0, ScreenWidth = 80, ShowArguments = False,
      ShowCpuPercent = False, ShowMemoryUsage = False, ShowNumThreads = False,
      ShowOwner = False, ShowPGIDs = False, ShowPGLs = False, ShowPIDs = False,
      ShowPPIDs = False, ShowProcessAge = False, ShowUIDTransitions = False,
      ShowUserTransitions = False, Usernames = [], UTF8Graphics = False,
      VT100Graphics = False, WideDisplay = False\<rparr>"

definition metric_options :: DisplayOptions where
  "metric_options = plain_options\<lparr>ShowCpuPercent := True, ShowMemoryUsage := True,
      ShowNumThreads := True, ShowProcessAge := True\<rparr>"

definition scenario_nodes :: "int Process list" where
  "scenario_nodes =
     [example_node 1 0 ''init'' ''root'' 900 1 100 1,
      example_node 50 1 ''sshd'' ''root'' 800 2 200 1,
      example_node 51 50 ''bash'' ''ann'' 30 3 300 2,
      example_node 52 50 ''bash'' ''ann'' 70 4 400 5]"

definition scenario_tree :: "int ProcessTree" where
  "scenario_tree = \<lparr>Nodes = scenario_nodes, ProcessGroups = Map.empty, TreeOptions = metric_options\<rparr>"

definition single_tree :: "int ProcessTree" where
  "single_tree = \<lparr>Nodes = [example_node 51 50 ''bash'' ''ann'' 30 3 300 2],
                    ProcessGroups = Map.empty, TreeOptions = plain_options\<rparr>"

definition aba_tree :: "int ProcessTree" where
  "aba_tree = \<lparr>Nodes = [example_node 2 1 ''a'' ''u'' 10 0 0 1,
                          example_node 3 1 ''b'' ''u'' 10 0 0 1,
                          example_node 4 1 ''a'' ''u'' 10 0 0 1],
                 ProcessGroups = Map.empty, TreeOptions = plain_options\<rparr>"

text \<open>Concrete inputs for the run command.\<close>

definition example_info :: "int32 \<Rightarrow> int32 \<Rightarrow> string \<Rightarrow> int ProcInfo" where
  "example_info pid ppid name =
     \<lparr>Pid = pid, qCmdlineSlice = Some [name], qExe = Some name,
      qCmdlineSlice2 = Some [name], qName = Some name,
      qPpid = Some ppid, qCPUPercent = Some 0, qCreateTime = Some 0, qGids = Some [],
      qGroups = Some [], qMemoryInfo = Some \<lparr>RSS = 0\<rparr>, qNumThreads = Some 1,
      qGetpgid = Some 0, qUsername = Some ''root'', qUids = Some [], clock = 0\<rparr>"

definition example_env :: "int Env" where
  "example_env =
     \<lparr>changedUser = False, changedLevel = False, colorCount = 256, colorSupport = True,
      screenWidth = 80, installedMemory = Some 1024, usernames = [],
      osProcesses = Some [example_info 50 1 ''sshd'', example_info 1 0 ''init'',
                          example_info 7 1 ''cron'']\<rparr>"

definition example_library :: "int Library" where
  "example_library =
     \<lparr>sort_Slice_handles = insertion_sort, sort_Slice = insertion_sort,
      RoundFloat = (\<lambda>x places. x), float64 = (\<lambda>w. int (unat w))\<rparr>"

definition no_flags :: Flags where
  "no_flags =
     \<lparr>flagAge = False, flagArguments = False, flagColor = False, flagColorAttr = [],
      flagColorScheme = [], flagCompactNot = False, flagContains = [], flagCpu = False,
      flagExcludeRoot = False, flagIBM850 = False, flagLevel = 0, flagMemory = False,
      flagOrderBy = [], flagPid = 0, flagRainbow = False, flagShowAll = False,
      flagShowOwner = False, flagShowPGIDs = False, flagShowPGLs = False,
      flagShowPIDs = False, flagShowPPIDs = False, flagShowUIDTransitions = False,
      flagShowUserTransitions = False, flagThreads = False, flagUTF8 = False,
      flagVersion = False, flagVT100 = False, flagWide = False\<rparr>"

definition small_nodes :: "int Process list" where
  "small_nodes =
     [example_node 7 1 ''cron'' ''root'' 40 2 300 1,
      example_node 1 0 ''init'' ''root'' 90 1 100 1,
      example_node 5 1 ''sshd'' ''ann'' 40 3 200 4]"

definition aged :: "int32 \<Rightarrow> int64 \<Rightarrow> int Process" where
  "aged pid age = example_node pid 1 ''worker'' ''ann'' age 0 0 1"

definition thirteen :: "int Process list" where
  "thirteen = [aged 100 1, aged 101 1, aged 102 1, aged 103 1, aged 104 1, aged 105 1,
               aged 106 1, aged 107 1, aged 108 1, aged 109 1, aged 110 1, aged 111 1,
               aged 112 0]"


definition every_attribute :: DisplayOptions where
  "every_attribute =
     plain_options\<lparr>ShowCpuPercent := True, ShowMemoryUsage := True, ShowNumThreads := True,
       ShowOwner := True, ShowPGIDs := True, ShowProcessAge := True,
       ShowUIDTransitions := True\<rparr>"

text \<open>A process for which every query of the operating system fails.\<close>

definition vanished_info :: "int ProcInfo" where
  "vanished_info =
     \<lparr>Pid = 7, qCmdlineSlice = None, qExe = None, qCmdlineSlice2 = None, qName = None,
      qPpid = None, qCPUPercent = None, qCreateTime = None, qGids = None, qGroups = None,
      qMemoryInfo = None, qNumThreads = None, qGetpgid = None, qUsername = None,
      qUids = None, clock = 100\<rparr>"

section \<open>Proofs\<close>

subsection \<open>Compact mode: the grouping loop\<close>

lemma at_key_store:
  "at_key (store m p k ow g) p' k' ow' =
     (if p' = p \<and> k' = k \<and> ow' = ow then Some g else at_key m p' k' ow')"
  by (auto simp: store_def at_parent_def at_key_def split: option.splits)

lemma dom_at_parent_store:
  "dom (at_parent (store m p k ow g) p') = (if p' = p then insert k (dom (at_parent m p)) else dom (at_parent m p'))"
  by (auto simp: store_def at_parent_def at_key_def split: option.splits)

lemma compact_step_eq:
  "compact_step opts node i (m, sk) =
    (if i \<in> sk then Inr (m, sk)
     else case aggregate opts node (base_group m node i) of
            Inl e \<Rightarrow> Inl e
          | Inr g \<Rightarrow> Inr (store m (PPID node) (Signature node) (Username node) g,
                          if at_key m (PPID node) (Signature node) (Username node) = None
                          then sk else insert i sk))"
  by (auto simp: compact_step_def Let_def store_def base_group_def at_parent_def at_key_def
        split: option.splits sum.splits intro!: ext)

lemma func_step_eq:
  "func_step node i (m, sk) =
    (if i \<in> sk then (m, sk)
     else (store m (PPID node) (Signature node) (Username node) (base_group m node i),
           if at_key m (PPID node) (Signature node) (Username node) = None
           then sk else insert i sk))"
  by (auto simp: func_step_def Let_def store_def base_group_def at_parent_def at_key_def
        split: option.splits sum.splits intro!: ext)

lemma aggregate_new:
  assumes "aggregate opts (ns ! k)
             \<lparr>Count = 1, FirstIndex = k, FullPath = [], Indices = [k], Owner = ow, GroupAge = 0,
              GroupCPUPercent = 0, MemoryUsage = 0, GroupNumThreads = 0\<rparr> = Inr g"
  shows "g = expected_group opts ns ow [k]"
  using assms
  by (auto simp: aggregate_def expected_group_def rss_of_def Let_def split: if_splits option.splits)

lemma aggregate_snoc:
  assumes "is \<noteq> []"
    and "aggregate opts (ns ! k)
           ((expected_group opts ns ow is)\<lparr>Count := Count (expected_group opts ns ow is) + 1,
              Indices := Indices (expected_group opts ns ow is) @ [k]\<rparr>) = Inr g"
  shows "g = expected_group opts ns ow (is @ [k])"
  using assms
  by (auto simp: aggregate_def expected_group_def rss_of_def Let_def split: if_splits option.splits)

lemma members_upto_Suc:
  "members_upto ns (Suc k) p s ow =
     (if PPID (ns ! k) = p \<and> Signature (ns ! k) = s \<and> Username (ns ! k) = ow
      then members_upto ns k p s ow @ [k] else members_upto ns k p s ow)"
  by (simp add: members_upto_def)

lemma compact_inv_init: "compact_inv opts ns 0 (Map.empty, {})"
  by (simp add: compact_inv_def members_upto_def at_parent_def at_key_def)

lemma compact_inv_step:
  assumes inv: "compact_inv opts ns k st"
    and step: "compact_step opts (ns ! k) k st = Inr st'"
  shows "compact_inv opts ns (Suc k) st'"
proof -
  obtain m sk where st: "st = (m, sk)" by (cases st)
  let ?p = "PPID (ns ! k)" and ?s = "Signature (ns ! k)" and ?ow = "Username (ns ! k)"
  let ?is = "members_upto ns k ?p ?s ?ow"
  from inv st have lk: "\<And>p s ow. at_key m p s ow =
        (if members_upto ns k p s ow = [] then None
         else Some (expected_group opts ns ow (members_upto ns k p s ow)))"
    and d1: "\<And>p. dom (at_parent m p) = {s. \<exists>i<k. PPID (ns ! i) = p \<and> Signature (ns ! i) = s}"
    and sk: "sk = {i. i < k \<and> members_upto ns i (PPID (ns ! i)) (Signature (ns ! i)) (Username (ns ! i)) \<noteq> []}"
    by (simp_all add: compact_inv_def)
  from sk have notin: "k \<notin> sk" by simp
  from step st notin obtain g where
    agg: "aggregate opts (ns ! k) (base_group m (ns ! k) k) = Inr g"
    and st': "st' = (store m ?p ?s ?ow g, if at_key m ?p ?s ?ow = None then sk else insert k sk)"
    by (auto simp: compact_step_eq split: sum.splits)
  have g: "g = expected_group opts ns ?ow (?is @ [k])"
  proof (cases "?is = []")
    case True
    with lk have "at_key m ?p ?s ?ow = None" by simp
    with agg have "g = expected_group opts ns ?ow [k]"
      by (intro aggregate_new) (simp add: base_group_def)
    with True show ?thesis by simp
  next
    case False
    with lk have "at_key m ?p ?s ?ow = Some (expected_group opts ns ?ow ?is)" by simp
    with agg False show ?thesis
      by (intro aggregate_snoc) (simp_all add: base_group_def)
  qed
  have a: "\<And>p s ow. at_key (fst st') p s ow =
        (if members_upto ns (Suc k) p s ow = [] then None
         else Some (expected_group opts ns ow (members_upto ns (Suc k) p s ow)))"
    by (simp add: st' at_key_store g lk members_upto_Suc)
  have b: "\<And>p. dom (at_parent (fst st') p) =
        {s. \<exists>i<Suc k. PPID (ns ! i) = p \<and> Signature (ns ! i) = s}"
    by (auto simp: st' dom_at_parent_store d1 less_Suc_eq)
  have c: "snd st' = {i. i < Suc k \<and>
        members_upto ns i (PPID (ns ! i)) (Signature (ns ! i)) (Username (ns ! i)) \<noteq> []}"
    using lk [of ?p ?s ?ow] by (auto simp: st' sk less_Suc_eq)
  from a b c show ?thesis by (simp add: compact_inv_def)
qed

lemma compact_loop_append:
  "compact_loop opts ns (xs @ ys) st =
     (case compact_loop opts ns xs st of Inl e \<Rightarrow> Inl e | Inr st' \<Rightarrow> compact_loop opts ns ys st')"
  by (induction xs arbitrary: st) (auto split: sum.splits)

lemma compact_loop_inv:
  "compact_loop opts ns [0..<k] (Map.empty, {}) = Inr st \<Longrightarrow> compact_inv opts ns k st"
proof (induction k arbitrary: st)
  case 0
  then show ?case using compact_inv_init by auto
next
  case (Suc k)
  then show ?case
    by (auto simp: compact_loop_append split: sum.splits intro: compact_inv_step)
qed

lemma aggregate_succeeds:
  "(ShowMemoryUsage opts \<longrightarrow> MemoryInfo node \<noteq> None) \<Longrightarrow> \<exists>g. aggregate opts node grp = Inr g"
  by (auto simp: aggregate_def Let_def split: option.splits)

lemma compact_step_succeeds:
  "(ShowMemoryUsage opts \<longrightarrow> MemoryInfo node \<noteq> None) \<Longrightarrow> \<exists>st'. compact_step opts node i st = Inr st'"
  using aggregate_succeeds [of opts node "base_group (fst st) node i"]
  by (cases st) (auto simp: compact_step_eq)

lemma compact_loop_succeeds:
  "(ShowMemoryUsage opts \<longrightarrow> (\<forall>i \<in> set is. MemoryInfo (ns ! i) \<noteq> None))
     \<Longrightarrow> \<exists>st'. compact_loop opts ns is st = Inr st'"
proof (induction "is" arbitrary: st)
  case Nil
  then show ?case by simp
next
  case (Cons i "is")
  then obtain st1 where "compact_step opts (ns ! i) i st = Inr st1"
    using compact_step_succeeds [of opts "ns ! i" i st] by auto
  with Cons show ?case by auto
qed

lemma InitCompactMode_succeeds:
  assumes "ShowMemoryUsage (TreeOptions t) \<longrightarrow> (\<forall>n \<in> set (Nodes t). MemoryInfo n \<noteq> None)"
  shows "\<exists>t' sk. InitCompactMode t = Inr (t', sk)"
proof -
  have "\<exists>st'. compact_loop (TreeOptions t) (Nodes t) [0..<length (Nodes t)] (ProcessGroups t, {}) = Inr st'"
    using assms by (intro compact_loop_succeeds) auto
  then show ?thesis by (auto simp: InitCompactMode_def)
qed

lemma InitCompactMode_inv:
  assumes "ProcessGroups t = Map.empty" and "InitCompactMode t = Inr (t', sk)"
  shows "compact_inv (TreeOptions t) (Nodes t) (length (Nodes t)) (ProcessGroups t', sk)"
  using assms compact_loop_inv [of "TreeOptions t" "Nodes t" "length (Nodes t)"]
  by (auto simp: InitCompactMode_def split: sum.splits)

lemma InitCompactMode_lookup:
  assumes "ProcessGroups t = Map.empty" and "InitCompactMode t = Inr (t', sk)"
  shows "at_key (ProcessGroups t') p s ow =
    (if members_upto (Nodes t) (length (Nodes t)) p s ow = [] then None
     else Some (expected_group (TreeOptions t) (Nodes t) ow
                  (members_upto (Nodes t) (length (Nodes t)) p s ow)))"
  using InitCompactMode_inv [OF assms] by (simp add: compact_inv_def)

lemma InitCompactMode_skip:
  assumes "ProcessGroups t = Map.empty" and "InitCompactMode t = Inr (t', sk)"
  shows "sk = {i. i < length (Nodes t) \<and>
     members_upto (Nodes t) i (PPID (Nodes t ! i)) (Signature (Nodes t ! i)) (Username (Nodes t ! i)) \<noteq> []}"
  using InitCompactMode_inv [OF assms] by (simp add: compact_inv_def)

lemma InitCompactMode_dom1:
  assumes "ProcessGroups t = Map.empty" and "InitCompactMode t = Inr (t', sk)"
  shows "dom (at_parent (ProcessGroups t') p) =
     {s. \<exists>i<length (Nodes t). PPID (Nodes t ! i) = p \<and> Signature (Nodes t ! i) = s}"
  using InitCompactMode_inv [OF assms] by (simp add: compact_inv_def)

lemma set_members_upto:
  "set (members_upto ns k p s ow) =
     {i. i < k \<and> PPID (ns ! i) = p \<and> Signature (ns ! i) = s \<and> Username (ns ! i) = ow}"
  by (auto simp: members_upto_def)

lemma sum_length_filter_key:
  "finite A \<Longrightarrow> f ` set xs \<subseteq> A \<Longrightarrow> (\<Sum>a\<in>A. length (filter (\<lambda>x. f x = a) xs)) = length xs"
proof (induction xs)
  case Nil
  then show ?case by simp
next
  case (Cons x xs)
  then have "(\<Sum>a\<in>A. length (filter (\<lambda>y. f y = a) (x # xs))) =
      (\<Sum>a\<in>A. (if f x = a then 1 else 0) + length (filter (\<lambda>y. f y = a) xs))"
    by (intro sum.cong) auto
  also have "\<dots> = (\<Sum>a\<in>A. (if f x = a then 1 else 0)) + (\<Sum>a\<in>A. length (filter (\<lambda>y. f y = a) xs))"
    by (simp add: sum.distrib)
  also have "\<dots> = 1 + length xs"
    using Cons by simp
  finally show ?case by simp
qed

lemma length_filter_nth_upt:
  "length (filter (\<lambda>i. P (ns ! i)) [0..<length ns]) = length (filter P ns)"
proof -
  have "filter P ns = filter P (map (\<lambda>i. ns ! i) [0..<length ns])"
    by (simp add: map_nth)
  also have "length \<dots> = length (filter (\<lambda>i. P (ns ! i)) [0..<length ns])"
    by (simp add: filter_map comp_def)
  finally show ?thesis by simp
qed

lemma group_count_total_eq:
  assumes e: "ProcessGroups t = Map.empty" and r: "InitCompactMode t = Inr (t', sk)"
  shows "group_count_total (ProcessGroups t') p = length (filter (\<lambda>n. PPID n = p) (Nodes t))"
proof -
  let ?ns = "Nodes t" and ?m = "ProcessGroups t'"
  let ?n = "length ?ns"
  let ?P = "filter (\<lambda>i. PPID (?ns ! i) = p) [0..<?n]"
  let ?PS = "\<lambda>s. filter (\<lambda>i. Signature (?ns ! i) = s) ?P"
  have mu: "members_upto ?ns ?n p s ow = filter (\<lambda>i. Username (?ns ! i) = ow) (?PS s)" for s ow
    by (auto simp: members_upto_def intro: filter_cong)
  have dom2: "dom (at_key ?m p s) = (\<lambda>i. Username (?ns ! i)) ` set (?PS s)" for s
  proof -
    have "ow \<in> dom (at_key ?m p s) \<longleftrightarrow> ow \<in> (\<lambda>i. Username (?ns ! i)) ` set (?PS s)" for ow
      unfolding dom_def InitCompactMode_lookup [OF e r] mu
      by (auto simp: filter_empty_conv)
    then show ?thesis by blast
  qed
  have inner: "(\<Sum>ow\<in>dom (at_key ?m p s). Count (the (at_key ?m p s ow))) = length (?PS s)" for s
  proof -
    have "(\<Sum>ow\<in>dom (at_key ?m p s). Count (the (at_key ?m p s ow))) =
          (\<Sum>ow\<in>dom (at_key ?m p s). length (filter (\<lambda>i. Username (?ns ! i) = ow) (?PS s)))"
    proof (rule sum.cong [OF refl])
      fix ow assume "ow \<in> dom (at_key ?m p s)"
      then have "members_upto ?ns ?n p s ow \<noteq> []"
        unfolding dom_def InitCompactMode_lookup [OF e r] by (auto split: if_splits)
      then show "Count (the (at_key ?m p s ow)) = length (filter (\<lambda>i. Username (?ns ! i) = ow) (?PS s))"
        unfolding InitCompactMode_lookup [OF e r] by (simp add: expected_group_def mu)
    qed
    also have "\<dots> = length (?PS s)"
      by (rule sum_length_filter_key) (simp_all add: dom2)
    finally show ?thesis .
  qed
  have dom1: "dom (at_parent ?m p) = (\<lambda>i. Signature (?ns ! i)) ` set ?P"
    unfolding InitCompactMode_dom1 [OF e r] by auto
  have "group_count_total ?m p = (\<Sum>s\<in>dom (at_parent ?m p). length (?PS s))"
    by (simp add: group_count_total_def inner)
  also have "\<dots> = length ?P"
    by (rule sum_length_filter_key) (simp_all add: dom1)
  also have "\<dots> = length (filter (\<lambda>n. PPID n = p) ?ns)"
    by (rule length_filter_nth_upt)
  finally show ?thesis .
qed

lemma scenario_tree_runs: "\<exists>t' sk. InitCompactMode scenario_tree = Inr (t', sk)"
  by (rule InitCompactMode_succeeds)
     (simp add: scenario_tree_def scenario_nodes_def example_node_def)

text \<open>
  Claim C1. For a tree whose group map is still empty, after \<open>InitCompactMode\<close> the
  counts of the groups stored under a parent PID add up to the number of processes with
  that PPID, and the groups under one parent are told apart by their (signature, owner)
  key: two stored groups whose members have the same signature and owner are the same
  map entry.
\<close>

theorem compact_counts_partition_siblings:
  assumes "ProcessGroups t = Map.empty" and "InitCompactMode t = Inr (t', sk)"
  shows "group_count_total (ProcessGroups t') p = length (filter (\<lambda>n. PPID n = p) (Nodes t)) \<and>
    (\<forall>s1 ow1 g1 s2 ow2 g2.
        at_key (ProcessGroups t') p s1 ow1 = Some g1 \<and>
        at_key (ProcessGroups t') p s2 ow2 = Some g2 \<and>
        Signature (Nodes t ! FirstIndex g1) = Signature (Nodes t ! FirstIndex g2) \<and>
        Owner g1 = Owner g2
        \<longrightarrow> s1 = s2 \<and> ow1 = ow2 \<and> g1 = g2)"
proof -
  have key: "Signature (Nodes t ! FirstIndex g) = s \<and> Owner g = ow"
    if "at_key (ProcessGroups t') p s ow = Some g" for s ow g
  proof -
    let ?is = "members_upto (Nodes t) (length (Nodes t)) p s ow"
    from that have ne: "?is \<noteq> []" and g: "g = expected_group (TreeOptions t) (Nodes t) ow ?is"
      unfolding InitCompactMode_lookup [OF assms] by (auto split: if_splits)
    from ne have "hd ?is \<in> set ?is" by simp
    then have "Signature (Nodes t ! hd ?is) = s"
      unfolding set_members_upto by simp
    with g show ?thesis by (simp add: expected_group_def)
  qed
  have "s1 = s2 \<and> ow1 = ow2 \<and> g1 = g2"
    if "at_key (ProcessGroups t') p s1 ow1 = Some g1"
      and "at_key (ProcessGroups t') p s2 ow2 = Some g2"
      and "Signature (Nodes t ! FirstIndex g1) = Signature (Nodes t ! FirstIndex g2)"
      and "Owner g1 = Owner g2" for s1 ow1 g1 s2 ow2 g2
    using that key [OF that(1)] key [OF that(2)] by auto
  then show ?thesis
    using group_count_total_eq [OF assms] by blast
qed

theorem compact_counts_partition_siblings_witness:
  "ProcessGroups scenario_tree = Map.empty \<and>
   (\<exists>t' sk. InitCompactMode scenario_tree = Inr (t', sk) \<and>
      group_count_total (ProcessGroups t') 50 = 2 \<and>
      group_count_total (ProcessGroups t') 1 = 1)"
proof -
  have e: "ProcessGroups scenario_tree = Map.empty" by (simp add: scenario_tree_def)
  obtain t' sk where r: "InitCompactMode scenario_tree = Inr (t', sk)"
    using scenario_tree_runs by blast
  have "group_count_total (ProcessGroups t') 50 = 2" "group_count_total (ProcessGroups t') 1 = 1"
    using compact_counts_partition_siblings [OF e r, of 50, THEN conjunct1]
      compact_counts_partition_siblings [OF e r, of 1, THEN conjunct1]
    by (simp_all add: scenario_tree_def scenario_nodes_def example_node_def)
  with e r show ?thesis by blast
qed

text \<open>
  Claim C3. Every group stored after \<open>InitCompactMode\<close> (on a tree whose group map was
  empty) has \<open>Count\<close> equal to the length of \<open>Indices\<close>, \<open>FirstIndex\<close> equal to the
  first element of \<open>Indices\<close>, and each member's \<open>Username\<close> and \<open>Signature\<close> equal
  to the group's \<open>Owner\<close> and to the signature key the group is stored under.
\<close>

theorem stored_group_consistent:
  assumes "ProcessGroups t = Map.empty" and "InitCompactMode t = Inr (t', sk)"
    and "at_key (ProcessGroups t') p s ow = Some g"
  shows "Count g = length (Indices g) \<and> Indices g \<noteq> [] \<and> FirstIndex g = hd (Indices g) \<and>
         Owner g = ow \<and>
         (\<forall>i \<in> set (Indices g). i < length (Nodes t) \<and> Username (Nodes t ! i) = Owner g \<and>
              Signature (Nodes t ! i) = s)"
proof -
  let ?is = "members_upto (Nodes t) (length (Nodes t)) p s ow"
  from assms(3) have ne: "?is \<noteq> []" and g: "g = expected_group (TreeOptions t) (Nodes t) ow ?is"
    unfolding InitCompactMode_lookup [OF assms(1,2)] by (auto split: if_splits)
  from g have f: "Count g = length ?is" "Indices g = ?is" "FirstIndex g = hd ?is" "Owner g = ow"
    by (simp_all add: expected_group_def)
  have "\<forall>i \<in> set ?is. i < length (Nodes t) \<and> Username (Nodes t ! i) = ow \<and> Signature (Nodes t ! i) = s"
    unfolding set_members_upto by simp
  with ne f show ?thesis by simp
qed

lemma scenario_members: "members_upto scenario_nodes 4 50 ''bash'' ''ann'' = [2, 3]"
  by (simp add: members_upto_def scenario_nodes_def example_node_def eval_nat_numeral)

theorem stored_group_consistent_witness:
  "ProcessGroups scenario_tree = Map.empty \<and>
   (\<exists>t' sk g. InitCompactMode scenario_tree = Inr (t', sk) \<and>
      at_key (ProcessGroups t') 50 ''bash'' ''ann'' = Some g \<and>
      Count g = 2 \<and> Indices g = [2, 3] \<and> FirstIndex g = 2 \<and> Owner g = ''ann'')"
proof -
  have e: "ProcessGroups scenario_tree = Map.empty" by (simp add: scenario_tree_def)
  obtain t' sk where r: "InitCompactMode scenario_tree = Inr (t', sk)"
    using scenario_tree_runs by blast
  have n: "Nodes scenario_tree = scenario_nodes" "length scenario_nodes = 4"
    by (simp_all add: scenario_tree_def scenario_nodes_def)
  obtain g where g: "at_key (ProcessGroups t') 50 ''bash'' ''ann'' = Some g" "Indices g = [2, 3]"
    using InitCompactMode_lookup [OF e r, of 50 "''bash''" "''ann''"]
    by (simp add: n scenario_members expected_group_def)
  from stored_group_consistent [OF e r g(1)] g(2)
  have "Count g = 2" "FirstIndex g = 2" "Owner g = ''ann''" by simp_all
  with e r g show ?thesis by blast
qed

lemma sint_max_int64: "sint (max_int64 x y) = max (sint x) (sint y)"
  by (simp add: max_int64_def max_def)

lemma sint_foldl_max_int64:
  "sint (foldl max_int64 a xs) = Max (insert (sint a) (sint ` set xs))"
proof (induction xs arbitrary: a)
  case Nil
  then show ?case by simp
next
  case (Cons x xs)
  have "Max (insert (max (sint a) (sint x)) (sint ` set xs)) =
        Max (insert (sint a) (insert (sint x) (sint ` set xs)))"
    by (cases "set xs = {}") (simp_all add: max.assoc)
  with Cons show ?case by (simp add: sint_max_int64)
qed

lemma foldl_plus_sum_list:
  fixes a :: "'a::monoid_add"
  shows "foldl (+) a xs = a + sum_list xs"
  by (induction xs arbitrary: a) (simp_all add: add.assoc)

text \<open>
  Claim C4 (as amended). A group stored by \<open>InitCompactMode\<close> (on a tree whose group map
  was empty) has as members all nodes with its parent PID, signature and owner, in index
  order. Each aggregate is computed over these members only when its display option is
  set, and is zero otherwise: \<open>GroupAge\<close> is the largest of \<open>0\<close> and the members' ages,
  \<open>GroupCPUPercent\<close> adds the members' values from left to right starting at \<open>0\<close>,
  \<open>MemoryUsage\<close> and \<open>GroupNumThreads\<close> are the sums of the members' RSS and thread
  counts in \<open>uint64\<close> and \<open>int32\<close> arithmetic.
\<close>

theorem group_metrics_when_shown:
  assumes "ProcessGroups t = Map.empty" and "InitCompactMode t = Inr (t', sk)"
    and "at_key (ProcessGroups t') p s ow = Some g"
  shows "Indices g = filter (\<lambda>i. PPID (Nodes t ! i) = p \<and> Signature (Nodes t ! i) = s \<and>
                               Username (Nodes t ! i) = ow) [0..<length (Nodes t)] \<and>
    sint (GroupAge g) =
      (if ShowProcessAge (TreeOptions t)
       then Max (insert 0 (set (map (\<lambda>i. sint (Age (Nodes t ! i))) (Indices g)))) else 0) \<and>
    GroupCPUPercent g =
      (if ShowCpuPercent (TreeOptions t)
       then foldl (+) 0 (map (\<lambda>i. CPUPercent (Nodes t ! i)) (Indices g)) else 0) \<and>
    MemoryUsage g =
      (if ShowMemoryUsage (TreeOptions t)
       then sum_list (map (\<lambda>i. rss_of (Nodes t ! i)) (Indices g)) else 0) \<and>
    GroupNumThreads g =
      (if ShowNumThreads (TreeOptions t)
       then sum_list (map (\<lambda>i. NumThreads (Nodes t ! i)) (Indices g)) else 0)"
proof -
  let ?is = "members_upto (Nodes t) (length (Nodes t)) p s ow"
  from assms(3) have g: "g = expected_group (TreeOptions t) (Nodes t) ow ?is"
    unfolding InitCompactMode_lookup [OF assms(1,2)] by (auto split: if_splits)
  have i: "Indices g = ?is" by (simp add: g expected_group_def)
  have a: "sint (GroupAge g) =
      (if ShowProcessAge (TreeOptions t)
       then Max (insert 0 (set (map (\<lambda>i. sint (Age (Nodes t ! i))) (Indices g)))) else 0)"
    by (simp add: g expected_group_def sint_foldl_max_int64 image_image)
  have c: "GroupCPUPercent g =
      (if ShowCpuPercent (TreeOptions t)
       then foldl (+) 0 (map (\<lambda>i. CPUPercent (Nodes t ! i)) (Indices g)) else 0)"
    by (simp add: g expected_group_def)
  have m: "MemoryUsage g =
      (if ShowMemoryUsage (TreeOptions t)
       then sum_list (map (\<lambda>i. rss_of (Nodes t ! i)) (Indices g)) else 0)"
    by (simp add: g expected_group_def foldl_plus_sum_list)
  have n: "GroupNumThreads g =
      (if ShowNumThreads (TreeOptions t)
       then sum_list (map (\<lambda>i. NumThreads (Nodes t ! i)) (Indices g)) else 0)"
    by (simp add: g expected_group_def foldl_plus_sum_list)
  from i a c m n show ?thesis by (simp add: members_upto_def)
qed

theorem group_metrics_when_shown_witness:
  "ProcessGroups scenario_tree = Map.empty \<and>
   (\<exists>t' sk g. InitCompactMode scenario_tree = Inr (t', sk) \<and>
      at_key (ProcessGroups t') 50 ''bash'' ''ann'' = Some g \<and>
      Indices g = [2, 3] \<and> sint (GroupAge g) = 70 \<and> GroupCPUPercent g = 7 \<and>
      MemoryUsage g = 700 \<and> GroupNumThreads g = 7)"
proof -
  have e: "ProcessGroups scenario_tree = Map.empty" by (simp add: scenario_tree_def)
  obtain t' sk where r: "InitCompactMode scenario_tree = Inr (t', sk)"
    using scenario_tree_runs by blast
  have n: "Nodes scenario_tree = scenario_nodes" "length scenario_nodes = 4"
    "TreeOptions scenario_tree = metric_options"
    by (simp_all add: scenario_tree_def scenario_nodes_def)
  obtain g where g: "at_key (ProcessGroups t') 50 ''bash'' ''ann'' = Some g" "Indices g = [2, 3]"
    using InitCompactMode_lookup [OF e r, of 50 "''bash''" "''ann''"]
    by (simp add: n scenario_members expected_group_def)
  from group_metrics_when_shown [OF e r g(1)] g(2)
  have "sint (GroupAge g) = 70" "GroupCPUPercent g = 7" "MemoryUsage g = 700" "GroupNumThreads g = 7"
    by (simp_all add: n metric_options_def plain_options_def scenario_nodes_def example_node_def
          rss_of_def)
  with e r g show ?thesis by blast
qed

lemma single_tree_runs: "\<exists>t' sk. InitCompactMode single_tree = Inr (t', sk)"
  by (rule InitCompactMode_succeeds)
     (simp add: single_tree_def plain_options_def)

text \<open>
  Claim C4 fails as stated: with every display option off, the group of a single process
  of age 30 with CPU 3, RSS 300 and 2 threads has all four aggregates at zero.
\<close>

theorem group_metrics_counterexample:
  "(case InitCompactMode single_tree of
      Inl e \<Rightarrow> None
    | Inr r \<Rightarrow> at_key (ProcessGroups (fst r)) 50 ''bash'' ''ann'') =
     Some \<lparr>Count = 1, FirstIndex = 0, FullPath = [], Indices = [0], Owner = ''ann'',
           GroupAge = 0, GroupCPUPercent = 0, MemoryUsage = 0, GroupNumThreads = 0\<rparr> \<and>
   Age (Nodes single_tree ! 0) = 30 \<and> CPUPercent (Nodes single_tree ! 0) = 3 \<and>
   MemoryInfo (Nodes single_tree ! 0) = Some \<lparr>RSS = 300\<rparr> \<and>
   NumThreads (Nodes single_tree ! 0) = 2"
  by (simp add: single_tree_def InitCompactMode_def compact_step_def aggregate_def
        plain_options_def example_node_def at_key_def at_parent_def Let_def)

text \<open>
  Claim C2 (as amended). Grouping is by parent PID, signature and owner alone, whatever
  lies between two nodes: any two nodes with the same parent PID, signature and owner are
  members of the same stored group, and the later one is marked to be skipped.
\<close>

theorem separated_siblings_grouped:
  assumes "ProcessGroups t = Map.empty" and "InitCompactMode t = Inr (t', sk)"
    and "i < j" and "j < length (Nodes t)"
    and "PPID (Nodes t ! i) = PPID (Nodes t ! j)"
    and "Signature (Nodes t ! i) = Signature (Nodes t ! j)"
    and "Username (Nodes t ! i) = Username (Nodes t ! j)"
  shows "\<exists>g. at_key (ProcessGroups t') (PPID (Nodes t ! j)) (Signature (Nodes t ! j))
                (Username (Nodes t ! j)) = Some g \<and>
             i \<in> set (Indices g) \<and> j \<in> set (Indices g) \<and> j \<in> sk"
proof -
  let ?p = "PPID (Nodes t ! j)" and ?s = "Signature (Nodes t ! j)" and ?ow = "Username (Nodes t ! j)"
  let ?is = "members_upto (Nodes t) (length (Nodes t)) ?p ?s ?ow"
  from assms have mem: "i \<in> set ?is" "j \<in> set ?is"
    by (simp_all add: set_members_upto)
  then have ne: "?is \<noteq> []" by auto
  then have g: "at_key (ProcessGroups t') ?p ?s ?ow =
      Some (expected_group (TreeOptions t) (Nodes t) ?ow ?is)"
    by (simp add: InitCompactMode_lookup [OF assms(1,2)])
  from assms have "i \<in> set (members_upto (Nodes t) j ?p ?s ?ow)"
    by (simp add: set_members_upto)
  then have "members_upto (Nodes t) j ?p ?s ?ow \<noteq> []" by auto
  with assms(4) have "j \<in> sk"
    by (simp add: InitCompactMode_skip [OF assms(1,2)])
  with g mem show ?thesis by (simp add: expected_group_def)
qed

lemma aba_tree_runs: "\<exists>t' sk. InitCompactMode aba_tree = Inr (t', sk)"
  by (rule InitCompactMode_succeeds)
     (simp add: aba_tree_def plain_options_def)

theorem separated_siblings_grouped_witness:
  "ProcessGroups aba_tree = Map.empty \<and> (0::nat) < 2 \<and> 2 < length (Nodes aba_tree) \<and>
   PPID (Nodes aba_tree ! 0) = PPID (Nodes aba_tree ! 2) \<and>
   Signature (Nodes aba_tree ! 0) = Signature (Nodes aba_tree ! 2) \<and>
   Username (Nodes aba_tree ! 0) = Username (Nodes aba_tree ! 2) \<and>
   (\<exists>t' sk g. InitCompactMode aba_tree = Inr (t', sk) \<and>
      at_key (ProcessGroups t') 1 ''a'' ''u'' = Some g \<and>
      0 \<in> set (Indices g) \<and> 2 \<in> set (Indices g) \<and> 2 \<in> sk)"
proof -
  have e: "ProcessGroups aba_tree = Map.empty" by (simp add: aba_tree_def)
  obtain t' sk where r: "InitCompactMode aba_tree = Inr (t', sk)"
    using aba_tree_runs by blast
  have h: "(0::nat) < 2" "2 < length (Nodes aba_tree)"
    "PPID (Nodes aba_tree ! 0) = PPID (Nodes aba_tree ! 2)"
    "Signature (Nodes aba_tree ! 0) = Signature (Nodes aba_tree ! 2)"
    "Username (Nodes aba_tree ! 0) = Username (Nodes aba_tree ! 2)"
    by (simp_all add: aba_tree_def example_node_def)
  have k: "PPID (Nodes aba_tree ! 2) = 1" "Signature (Nodes aba_tree ! 2) = ''a''"
    "Username (Nodes aba_tree ! 2) = ''u''"
    by (simp_all add: aba_tree_def example_node_def)
  from separated_siblings_grouped [OF e r h] obtain g where
    "at_key (ProcessGroups t') 1 ''a'' ''u'' = Some g" "0 \<in> set (Indices g)"
    "2 \<in> set (Indices g)" "2 \<in> sk"
    unfolding k by blast
  with e r h show ?thesis by blast
qed

text \<open>
  Claim C2 fails as stated: of three nodes under parent 1 with signatures \<open>a\<close>,
  \<open>b\<close>, \<open>a\<close>, the first and the third are folded into one group with
  \<open>Count = 2\<close> and the third is skipped, although the second lies between them;
  \<open>GetProcessCount\<close> then reports a group of two with PIDs 2 and 4 for the first.
\<close>

theorem consecutive_only_counterexample:
  "(case InitCompactMode aba_tree of
      Inl e \<Rightarrow> None
    | Inr r \<Rightarrow> at_key (ProcessGroups (fst r)) 1 ''a'' ''u'') =
     Some \<lparr>Count = 2, FirstIndex = 0, FullPath = [], Indices = [0, 2], Owner = ''u'',
           GroupAge = 0, GroupCPUPercent = 0, MemoryUsage = 0, GroupNumThreads = 0\<rparr> \<and>
   (case InitCompactMode aba_tree of Inl e \<Rightarrow> {} | Inr r \<Rightarrow> snd r) = {2} \<and>
   (case InitCompactMode aba_tree of
      Inl e \<Rightarrow> None
    | Inr r \<Rightarrow> Some (GetProcessCount (fst r) 0, GetProcessCount (fst r) 2)) =
     Some (Inr (2, [2, 4], 0, 0, 0, 0), Inr (1, [], 0, 0, 0, 0)) \<and>
   PPID (Nodes aba_tree ! 1) = 1 \<and> Signature (Nodes aba_tree ! 1) = ''b'' \<and>
   Signature (Nodes aba_tree ! 0) = ''a'' \<and> Signature (Nodes aba_tree ! 2) = ''a''"
  by (simp add: aba_tree_def InitCompactMode_def compact_step_def aggregate_def
        plain_options_def example_node_def at_key_def at_parent_def Let_def eval_nat_numeral
        GetProcessCount_def)

subsection \<open>Compact mode: method and standalone function\<close>

lemma aggregate_strip:
  "aggregate opts node grp = Inr g \<Longrightarrow> strip_metrics g = strip_metrics grp"
  by (auto simp: aggregate_def strip_metrics_def Let_def split: if_splits option.splits)

lemma base_group_strip:
  assumes "at_key m' (PPID node) (Signature node) (Username node) =
           map_option strip_metrics (at_key m (PPID node) (Signature node) (Username node))"
  shows "base_group m' node i = strip_metrics (base_group m node i)"
  using assms by (auto simp: base_group_def strip_metrics_def split: option.splits)

lemma func_simulates_step:
  assumes R: "\<And>p s ow. at_key m' p s ow = map_option strip_metrics (at_key m p s ow)"
    and step: "compact_step opts node i (m, sk) = Inr (m2, sk2)"
  shows "\<exists>m2'. func_step node i (m', sk) = (m2', sk2) \<and>
           (\<forall>p s ow. at_key m2' p s ow = map_option strip_metrics (at_key m2 p s ow))"
proof (cases "i \<in> sk")
  case True
  with step R show ?thesis by (simp add: compact_step_eq func_step_eq)
next
  case False
  let ?p = "PPID node" and ?s = "Signature node" and ?ow = "Username node"
  from step False obtain g where
    agg: "aggregate opts node (base_group m node i) = Inr g"
    and m2: "m2 = store m ?p ?s ?ow g"
    and sk2: "sk2 = (if at_key m ?p ?s ?ow = None then sk else insert i sk)"
    by (auto simp: compact_step_eq split: sum.splits)
  have b: "base_group m' node i = strip_metrics g"
    using base_group_strip [OF R] aggregate_strip [OF agg] by simp
  have "func_step node i (m', sk) = (store m' ?p ?s ?ow (strip_metrics g), sk2)"
    using False by (simp add: func_step_eq b sk2 R)
  moreover have "\<forall>p s ow. at_key (store m' ?p ?s ?ow (strip_metrics g)) p s ow =
      map_option strip_metrics (at_key m2 p s ow)"
    by (simp add: m2 at_key_store R)
  ultimately show ?thesis by blast
qed

lemma func_simulates_loop:
  assumes "\<And>p s ow. at_key m' p s ow = map_option strip_metrics (at_key m p s ow)"
    and "compact_loop opts ns is (m, sk) = Inr (m2, sk2)"
  shows "\<exists>m2'. func_loop ns is (m', sk) = (m2', sk2) \<and>
           (\<forall>p s ow. at_key m2' p s ow = map_option strip_metrics (at_key m2 p s ow))"
  using assms
proof (induction "is" arbitrary: m m' sk)
  case Nil
  then show ?case by simp
next
  case (Cons i "is")
  from Cons.prems(2) obtain m1 sk1 where
    s1: "compact_step opts (ns ! i) i (m, sk) = Inr (m1, sk1)"
    and l1: "compact_loop opts ns is (m1, sk1) = Inr (m2, sk2)"
    by (auto split: sum.splits)
  from func_simulates_step [OF Cons.prems(1) s1] obtain m1' where
    f1: "func_step (ns ! i) i (m', sk) = (m1', sk1)"
    and R1: "\<And>p s ow. at_key m1' p s ow = map_option strip_metrics (at_key m1 p s ow)"
    by blast
  from Cons.IH [OF R1 l1] f1 show ?case by simp
qed

text \<open>
  Claim C10. On a tree whose group map is empty, whenever the method
  \<open>ProcessTree.InitCompactMode\<close> returns, the standalone \<open>InitCompactMode\<close> run on the
  same nodes marks the same indices as skipped and stores, under every (parent PID,
  signature, owner) key, a group exactly when the method does, with the same \<open>Count\<close>,
  \<open>FirstIndex\<close> and \<open>Indices\<close>.
\<close>

theorem func_and_method_agree:
  assumes "ProcessGroups t = Map.empty" and "InitCompactMode t = Inr (t', sk)"
  shows "snd (InitCompactMode_func (Nodes t)) = sk \<and>
    (\<forall>p s ow.
       map_option (\<lambda>g. (Count g, FirstIndex g, Indices g))
         (at_key (fst (InitCompactMode_func (Nodes t))) p s ow) =
       map_option (\<lambda>g. (Count g, FirstIndex g, Indices g))
         (at_key (ProcessGroups t') p s ow))"
proof -
  from assms have l: "compact_loop (TreeOptions t) (Nodes t) [0..<length (Nodes t)] (Map.empty, {}) =
      Inr (ProcessGroups t', sk)"
    by (auto simp: InitCompactMode_def split: sum.splits)
  have R0: "\<And>p s ow. at_key (Map.empty :: 'a GroupMap) p s ow =
      map_option strip_metrics (at_key (Map.empty :: 'a GroupMap) p s ow)"
    by (simp add: at_key_def at_parent_def)
  from func_simulates_loop [OF R0 l] obtain m2' where
    f: "InitCompactMode_func (Nodes t) = (m2', sk)"
    and R: "\<And>p s ow. at_key m2' p s ow = map_option strip_metrics (at_key (ProcessGroups t') p s ow)"
    unfolding InitCompactMode_func_def by blast
  have "map_option (\<lambda>g. (Count g, FirstIndex g, Indices g)) (at_key m2' p s ow) =
        map_option (\<lambda>g. (Count g, FirstIndex g, Indices g)) (at_key (ProcessGroups t') p s ow)"
    for p s ow
    by (simp add: R option.map_comp comp_def strip_metrics_def)
  with f show ?thesis by simp
qed

theorem func_and_method_agree_witness:
  "ProcessGroups scenario_tree = Map.empty \<and>
   (\<exists>t' sk. InitCompactMode scenario_tree = Inr (t', sk) \<and>
      snd (InitCompactMode_func (Nodes scenario_tree)) = sk \<and>
      map_option (\<lambda>g. (Count g, FirstIndex g, Indices g))
        (at_key (fst (InitCompactMode_func (Nodes scenario_tree))) 50 ''bash'' ''ann'') =
      Some (2, 2, [2, 3]))"
proof -
  have e: "ProcessGroups scenario_tree = Map.empty" by (simp add: scenario_tree_def)
  obtain t' sk where r: "InitCompactMode scenario_tree = Inr (t', sk)"
    using scenario_tree_runs by blast
  have n: "Nodes scenario_tree = scenario_nodes" "length scenario_nodes = 4"
    by (simp_all add: scenario_tree_def scenario_nodes_def)
  have g: "at_key (ProcessGroups t') 50 ''bash'' ''ann'' =
      Some (expected_group (TreeOptions scenario_tree) scenario_nodes ''ann'' [2, 3])"
    using InitCompactMode_lookup [OF e r, of 50 "''bash''" "''ann''"]
    by (simp add: n scenario_members)
  from func_and_method_agree [OF e r]
  have "snd (InitCompactMode_func (Nodes scenario_tree)) = sk"
    and "map_option (\<lambda>g. (Count g, FirstIndex g, Indices g))
        (at_key (fst (InitCompactMode_func (Nodes scenario_tree))) 50 ''bash'' ''ann'') =
      Some (2, 2, [2, 3])"
    by (simp_all add: g expected_group_def)
  with e r show ?thesis by blast
qed

subsection \<open>Comparisons and a sort function that meets the contract\<close>

lemma strict_weak_order_key:
  fixes f :: "'a \<Rightarrow> 'b::linorder"
  shows "strict_weak_order (\<lambda>a b. f a < f b)"
  by (auto simp: strict_weak_order_def)

lemma string_less_irrefl: "\<not> string_less xs xs"
  by (induction xs) auto

lemma string_less_trans: "string_less xs ys \<Longrightarrow> string_less ys zs \<Longrightarrow> string_less xs zs"
proof (induction xs ys arbitrary: zs rule: string_less.induct)
  case (2 y ys)
  then show ?case by (cases zs) auto
next
  case (4 x xs y ys)
  then show ?case by (cases zs) auto
qed auto

lemma string_less_total: "\<not> string_less xs ys \<Longrightarrow> \<not> string_less ys xs \<Longrightarrow> xs = ys"
proof (induction xs ys rule: string_less.induct)
  case (4 x xs y ys)
  then have "(of_char x :: nat) = of_char y" by auto
  then have "x = y" by simp
  with 4 show ?case by auto
qed auto

lemma strict_weak_order_string_key: "strict_weak_order (\<lambda>a b. string_less (f a) (f b))"
  unfolding strict_weak_order_def
proof (intro conjI allI impI)
  fix a b c
  assume "\<not> string_less (f a) (f b) \<and> \<not> string_less (f b) (f c)"
  then show "\<not> string_less (f a) (f c)"
    by (metis string_less_total string_less_trans)
qed (auto intro: string_less_trans simp: string_less_irrefl)

lemma strict_weak_order_less_by_key:
  fixes tofloat :: "uint64 \<Rightarrow> 'f::linorder"
  shows "strict_weak_order (less_by_key tofloat key :: 'f Process \<Rightarrow> 'f Process \<Rightarrow> bool)"
proof -
  have "strict_weak_order (less_Age :: 'f Process \<Rightarrow> _)" "strict_weak_order (less_Cpu :: 'f Process \<Rightarrow> _)"
    "strict_weak_order (less_Memory tofloat)" "strict_weak_order (less_Pid :: 'f Process \<Rightarrow> _)"
    "strict_weak_order (less_NumThreads :: 'f Process \<Rightarrow> _)"
    unfolding less_Age_def [abs_def] less_Cpu_def [abs_def] less_Memory_def [abs_def]
      less_Pid_def [abs_def] less_NumThreads_def [abs_def]
    by (rule strict_weak_order_key)+
  moreover have "strict_weak_order (less_Username :: 'f Process \<Rightarrow> _)"
    unfolding less_Username_def [abs_def] by (rule strict_weak_order_string_key)
  ultimately show ?thesis by (simp add: less_by_key_def)
qed

lemma mset_insert_by: "mset (insert_by lt x ys) = add_mset x (mset ys)"
  by (induction ys) auto

lemma set_insert_by: "set (insert_by lt x ys) = insert x (set ys)"
  by (induction ys) auto

lemma sorted_insert_by:
  assumes "strict_weak_order lt" and "sorted_wrt (\<lambda>a b. \<not> lt b a) ys"
  shows "sorted_wrt (\<lambda>a b. \<not> lt b a) (insert_by lt x ys)"
  using assms(2)
proof (induction ys)
  case Nil
  then show ?case by simp
next
  case (Cons y ys)
  from assms(1) have irr: "\<And>a. \<not> lt a a" and tr: "\<And>a b c. lt a b \<Longrightarrow> lt b c \<Longrightarrow> lt a c"
    unfolding strict_weak_order_def by blast+
  show ?case
  proof (cases "lt x y")
    case True
    have "\<not> lt z x" if "z \<in> set (y # ys)" for z
    proof
      assume "lt z x"
      then have "lt z y" using True by (rule tr)
      with that Cons.prems irr show False by auto
    qed
    with True Cons.prems show ?thesis by auto
  next
    case False
    with Cons show ?thesis by (auto simp: set_insert_by)
  qed
qed

lemma insertion_sort_snoc:
  "insertion_sort lt (xs @ [x]) = insert_by lt x (insertion_sort lt xs)"
  by (simp add: insertion_sort_def)

lemma insertion_sort_contract: "sort_contract insertion_sort"
  unfolding sort_contract_def
proof (intro allI impI)
  fix lt :: "'a \<Rightarrow> 'a \<Rightarrow> bool" and xs
  assume swo: "strict_weak_order lt"
  show "mset (insertion_sort lt xs) = mset xs \<and>
        sorted_wrt (\<lambda>a b. \<not> lt b a) (insertion_sort lt xs)"
  proof (induction xs rule: rev_induct)
    case Nil
    then show ?case by (simp add: insertion_sort_def)
  next
    case (snoc x xs)
    then show ?case
      by (simp add: insertion_sort_snoc mset_insert_by sorted_insert_by [OF swo])
  qed
qed

subsection \<open>The run command\<close>

lemma GetProcessByPid_Inr:
  "GetProcessByPid ps pid = Inr proc \<Longrightarrow> PID proc = pid \<and> proc \<in> set ps"
  by (auto simp: GetProcessByPid_def find_Some_iff split: option.splits)

lemma GetProcessByPid_Inl_iff:
  "(\<exists>e. GetProcessByPid ps pid = Inl e) \<longleftrightarrow> (\<forall>p \<in> set ps. PID p \<noteq> pid)"
proof (cases "find (\<lambda>p. PID p = pid) ps")
  case None
  then have "\<forall>p \<in> set ps. PID p \<noteq> pid" by (simp add: find_None_iff)
  with None show ?thesis by (simp add: GetProcessByPid_def)
next
  case (Some x)
  then have "x \<in> set ps \<and> PID x = pid"
    by (auto simp: find_Some_iff)
  with Some show ?thesis by (auto simp: GetProcessByPid_def)
qed

lemma sorted_then_kept:
  assumes "sort_contract srt" and "strict_weak_order lt"
  shows "mset (filter Q (srt lt ps)) = mset (filter Q ps) \<and>
         sorted_wrt (\<lambda>a b. \<not> lt b a) (filter Q (srt lt ps))"
proof -
  from assms have m: "mset (srt lt ps) = mset ps" and s: "sorted_wrt (\<lambda>a b. \<not> lt b a) (srt lt ps)"
    unfolding sort_contract_def by blast+
  from m have "mset (filter Q (srt lt ps)) = mset (filter Q ps)"
    by (simp only: mset_filter)
  moreover from s have "sorted_wrt (\<lambda>a b. \<not> lt b a) (filter Q (srt lt ps))"
    by (rule sorted_wrt_filter)
  ultimately show ?thesis by simp
qed

lemma order_processes_ordered:
  fixes lib :: "('f::linorder) Library"
  assumes c: "sort_contract (sort_Slice lib)"
    and k: "flagOrderBy flags \<noteq> []"
    and r: "order_processes lib flags ps = Inr (flags', ps')"
  shows "\<exists>proc rest. ps' = proc # rest \<and> PID proc = 1 \<and> proc \<in> set ps \<and>
           (\<forall>p \<in> set rest. PID p \<noteq> 1) \<and>
           mset rest = mset (filter (\<lambda>p. PID p \<noteq> 1) ps) \<and>
           sorted_wrt (\<lambda>a b. \<not> less_by_key (float64 lib) (flagOrderBy flags) b a) rest"
proof -
  let ?lt = "less_by_key (float64 lib) (flagOrderBy flags)"
  let ?keep = "filter (\<lambda>p. PID p \<noteq> 1)"
  from k r have v: "flagOrderBy flags \<in> set validOrderBy"
    by (auto simp: order_processes_def split: if_splits)
  from k r v obtain proc where p: "GetProcessByPid ps 1 = Inr proc"
    by (auto simp: order_processes_def split: if_splits sum.splits)
  have "ps' = proc # ?keep (sort_Slice lib ?lt ps)"
    using k r v p
    by (auto simp: order_processes_def validOrderBy_def less_by_key_def Let_def
          SortProcsByAge_def SortProcsByCpu_def SortProcsByMemory_def SortProcsByPid_def
          SortProcsByNumThreads_def SortProcsByUsername_def
          split: if_splits sum.splits)
  moreover have "mset (?keep (sort_Slice lib ?lt ps)) = mset (?keep ps) \<and>
      sorted_wrt (\<lambda>a b. \<not> ?lt b a) (?keep (sort_Slice lib ?lt ps))"
    by (rule sorted_then_kept [OF c strict_weak_order_less_by_key])
  moreover have "\<forall>p \<in> set (?keep (sort_Slice lib ?lt ps)). PID p \<noteq> 1" by simp
  ultimately show ?thesis using GetProcessByPid_Inr [OF p] by blast
qed

lemma order_processes_flags:
  assumes "order_processes lib flags ps = Inr (flags', ps')"
  shows "flagColorAttr flags' = flagColorAttr flags \<and> flagContains flags' = flagContains flags \<and>
         flagCompactNot flags' = flagCompactNot flags \<and> flagColorScheme flags' = flagColorScheme flags \<and>
         flagLevel flags' = flagLevel flags \<and> flagOrderBy flags' = flagOrderBy flags"
  using assms
  by (auto simp: order_processes_def Let_def split: if_splits sum.splits)

text \<open>Without a process of PID 1, a valid sort key ends the run in a panic.\<close>

lemma order_processes_without_pid1:
  assumes "flagOrderBy flags \<in> set validOrderBy" and "\<forall>p \<in> set ps. PID p \<noteq> 1"
  shows "\<exists>msg. order_processes lib flags ps = Inl (Panic msg)"
proof -
  from assms(2) obtain e where "GetProcessByPid ps 1 = Inl e"
    using GetProcessByPid_Inl_iff [of ps 1] by blast
  moreover from assms(1) have "flagOrderBy flags \<noteq> []"
    by (auto simp: validOrderBy_def)
  ultimately show ?thesis using assms(1) by (simp add: order_processes_def)
qed

lemma show_all_flags:
  "flagColorAttr (show_all flags) = flagColorAttr flags \<and>
   flagContains (show_all flags) = flagContains flags \<and>
   flagCompactNot (show_all flags) = flagCompactNot flags \<and>
   flagOrderBy (show_all flags) = flagOrderBy flags"
  by (simp add: show_all_def)

lemma pstreeRunCmd_Inr:
  assumes "pstreeRunCmd lib flags env = Inr (displayOptions, processes)"
  shows "flag_rules flags env = None \<and> \<not> flagVersion flags \<and>
    (\<exists>collected flags2.
       GetProcesses lib env [] (miniOptions_of (show_all flags) env) = Inr collected \<and>
       order_processes lib (show_all flags) collected = Inr (flags2, processes) \<and>
       displayOptions_of flags2 env = Inr displayOptions)"
  using assms
  by (auto simp: pstreeRunCmd_def Let_def split: option.splits if_splits sum.splits)

lemma example_run_pid:
  "\<exists>d ps. pstreeRunCmd example_library (no_flags\<lparr>flagOrderBy := ''pid''\<rparr>) example_env = Inr (d, ps)"
  by (simp add: pstreeRunCmd_def flag_rules_def no_flags_def BtoI_def StoI_def show_all_def
        GetProcesses_def example_env_def example_library_def SortByPid_def insertion_sort_def
        example_info_def order_processes_def validOrderBy_def GetProcessByPid_def
        GenerateProcess_def GenerateProcess_with_def fetchers_def ProcessArgs_def
        ProcessCommandName_def ProcessPPID_def ProcessCpuPercent_def ProcessCreateTime_def
        ProcessGIDs_def ProcessGroups_closure_def ProcessMemoryInfo_def ProcessNumThreads_def
        ProcessPGID_def ProcessUsername_def ProcessUIDs_def Let_def
        miniOptions_of_def zero_DisplayOptions_def SortProcsByPid_def less_Pid_def
        displayOptions_of_def)

text \<open>
  Claim C6. For any sort function that meets the contract of \<open>sort.Slice\<close>: when a sort
  key is requested and the run command gets as far as building the tree, the process
  sequence it builds the tree from starts with a process with PID 1, and the rest are
  exactly the collected processes with another PID, sorted by the requested key.
\<close>

theorem pid1_first_when_ordered:
  fixes lib :: "('f::{zero,one,uminus,linorder}) Library"
  assumes "sort_contract (sort_Slice lib)"
    and "flagOrderBy flags \<noteq> []"
    and "pstreeRunCmd lib flags env = Inr (displayOptions, processes)"
  shows "\<exists>proc rest collected.
           processes = proc # rest \<and> PID proc = 1 \<and>
           GetProcesses lib env [] (miniOptions_of (show_all flags) env) = Inr collected \<and>
           proc \<in> set collected \<and>
           (\<forall>p \<in> set rest. PID p \<noteq> 1) \<and>
           mset rest = mset (filter (\<lambda>p. PID p \<noteq> 1) collected) \<and>
           sorted_wrt (\<lambda>a b. \<not> less_by_key (float64 lib) (flagOrderBy flags) b a) rest"
proof -
  from pstreeRunCmd_Inr [OF assms(3)] obtain collected flags2 where
    g: "GetProcesses lib env [] (miniOptions_of (show_all flags) env) = Inr collected"
    and o: "order_processes lib (show_all flags) collected = Inr (flags2, processes)"
    by blast
  have k: "flagOrderBy (show_all flags) \<noteq> []" "flagOrderBy (show_all flags) = flagOrderBy flags"
    using assms(2) by (simp_all add: show_all_flags)
  from order_processes_ordered [OF assms(1) k(1) o] g show ?thesis
    unfolding k(2) by blast
qed

theorem pid1_first_when_ordered_witness:
  "sort_contract (sort_Slice example_library) \<and>
   flagOrderBy (no_flags\<lparr>flagOrderBy := ''pid''\<rparr>) \<noteq> [] \<and>
   (\<exists>d ps. pstreeRunCmd example_library (no_flags\<lparr>flagOrderBy := ''pid''\<rparr>) example_env = Inr (d, ps) \<and>
      ps \<noteq> [] \<and> PID (hd ps) = 1)"
proof -
  have c: "sort_contract (sort_Slice example_library)"
    by (simp add: example_library_def insertion_sort_contract)
  have k: "flagOrderBy (no_flags\<lparr>flagOrderBy := ''pid''\<rparr>) \<noteq> []" by simp
  obtain d ps where
    r: "pstreeRunCmd example_library (no_flags\<lparr>flagOrderBy := ''pid''\<rparr>) example_env = Inr (d, ps)"
    using example_run_pid by blast
  from pid1_first_when_ordered [OF c k r] have "ps \<noteq> [] \<and> PID (hd ps) = 1" by auto
  with c k r show ?thesis by blast
qed

lemma displayOptions_of_CompactMode:
  assumes "displayOptions_of flags env = Inr displayOptions"
    and "flagColorAttr flags \<noteq> [] \<or> flagContains flags \<noteq> []"
  shows "\<not> CompactMode displayOptions"
  using assms
  by (auto simp: displayOptions_of_def Let_def split: option.splits if_splits)

text \<open>
  Claim C7. Whenever the color attribute or the substring filter is set and the run
  command gets as far as building the tree, compact mode is off in the display options
  it builds the tree with, whatever the flag that turns compaction off says.
\<close>

theorem compact_off_with_color_attr_or_contains:
  assumes "pstreeRunCmd lib flags env = Inr (displayOptions, processes)"
    and "flagColorAttr flags \<noteq> [] \<or> flagContains flags \<noteq> []"
  shows "\<not> CompactMode displayOptions"
proof -
  from pstreeRunCmd_Inr [OF assms(1)] obtain collected flags2 where
    o: "order_processes lib (show_all flags) collected = Inr (flags2, processes)"
    and d: "displayOptions_of flags2 env = Inr displayOptions"
    by blast
  from order_processes_flags [OF o] assms(2)
  have "flagColorAttr flags2 \<noteq> [] \<or> flagContains flags2 \<noteq> []"
    by (simp add: show_all_flags)
  with d show ?thesis by (rule displayOptions_of_CompactMode)
qed

lemma example_run_contains:
  "\<exists>d ps. pstreeRunCmd example_library (no_flags\<lparr>flagContains := ''ssh''\<rparr>) example_env = Inr (d, ps)"
  by (simp add: pstreeRunCmd_def flag_rules_def no_flags_def BtoI_def StoI_def show_all_def
        GetProcesses_def example_env_def example_library_def order_processes_def Let_def
        displayOptions_of_def)

theorem compact_off_with_color_attr_or_contains_witness:
  "flagContains (no_flags\<lparr>flagContains := ''ssh''\<rparr>) \<noteq> [] \<and>
   flagCompactNot (no_flags\<lparr>flagContains := ''ssh''\<rparr>) = False \<and>
   (\<exists>d ps. pstreeRunCmd example_library (no_flags\<lparr>flagContains := ''ssh''\<rparr>) example_env = Inr (d, ps) \<and>
      CompactMode d = False)"
proof -
  have h: "flagColorAttr (no_flags\<lparr>flagContains := ''ssh''\<rparr>) \<noteq> [] \<or>
    flagContains (no_flags\<lparr>flagContains := ''ssh''\<rparr>) \<noteq> []" by simp
  obtain d ps where
    r: "pstreeRunCmd example_library (no_flags\<lparr>flagContains := ''ssh''\<rparr>) example_env = Inr (d, ps)"
    using example_run_contains by blast
  from compact_off_with_color_attr_or_contains [OF r h] have "CompactMode d = False" by simp
  moreover have "flagCompactNot (no_flags\<lparr>flagContains := ''ssh''\<rparr>) = False"
    by (simp add: no_flags_def)
  moreover have "flagContains (no_flags\<lparr>flagContains := ''ssh''\<rparr>) \<noteq> []" by simp
  ultimately show ?thesis using r by blast
qed

lemma flag_rules_color:
  assumes "color_conflict flags \<or> invalid_color_value flags"
  shows "\<exists>msg. flag_rules flags env = Some msg"
  using assms
  by (auto simp: flag_rules_def color_conflict_def invalid_color_value_def BtoI_def StoI_def)

lemma order_processes_invalid:
  assumes "invalid_sort_key flags"
  shows "\<exists>msg. order_processes lib flags ps = Inl (Error msg)"
  using assms by (simp add: order_processes_def invalid_sort_key_def)

lemma invalid_sort_key_show_all: "invalid_sort_key (show_all flags) = invalid_sort_key flags"
  by (simp add: invalid_sort_key_def show_all_flags)

text \<open>
  Claim C8 (as amended). Mutually exclusive color options, an unknown color attribute or
  an unknown color scheme always make the run command return an error. An unknown sort
  key never lets a tree be built; it makes the run command return an error whenever the
  version flag is not set and the processes could be listed (the key is checked only
  after the version flag has been served and the processes have been collected).
\<close>

theorem invalid_options_rejected:
  "(color_conflict flags \<or> invalid_color_value flags
      \<longrightarrow> (\<exists>msg. pstreeRunCmd lib flags env = Inl (Error msg))) \<and>
   (invalid_sort_key flags
      \<longrightarrow> (\<forall>r. pstreeRunCmd lib flags env \<noteq> Inr r) \<and>
          (\<not> flagVersion flags \<and> osProcesses env \<noteq> None
             \<longrightarrow> (\<exists>msg. pstreeRunCmd lib flags env = Inl (Error msg))))"
proof (intro conjI impI)
  assume "color_conflict flags \<or> invalid_color_value flags"
  from flag_rules_color [OF this] obtain msg where "flag_rules flags env = Some msg" by blast
  then show "\<exists>msg. pstreeRunCmd lib flags env = Inl (Error msg)"
    by (simp add: pstreeRunCmd_def)
next
  assume i: "invalid_sort_key flags"
  have inv: "\<exists>msg. order_processes lib (show_all flags) ps = Inl (Error msg)" for ps
    using i by (intro order_processes_invalid) (simp add: invalid_sort_key_show_all)
  show "\<forall>r. pstreeRunCmd lib flags env \<noteq> Inr r"
  proof (intro allI notI)
    fix r assume "pstreeRunCmd lib flags env = Inr r"
    then obtain d ps where "pstreeRunCmd lib flags env = Inr (d, ps)" by (cases r) auto
    from pstreeRunCmd_Inr [OF this] obtain collected flags2 where
      "order_processes lib (show_all flags) collected = Inr (flags2, ps)" by blast
    with inv [of collected] show False by auto
  qed
  assume v: "\<not> flagVersion flags \<and> osProcesses env \<noteq> None"
  then obtain unsorted where u: "osProcesses env = Some unsorted" by auto
  show "\<exists>msg. pstreeRunCmd lib flags env = Inl (Error msg)"
  proof (cases "flag_rules flags env")
    case (Some msg)
    then show ?thesis by (simp add: pstreeRunCmd_def)
  next
    case None
    obtain msg where "order_processes lib (show_all flags)
        (map (\<lambda>p. GenerateProcess (RoundFloat lib) p (miniOptions_of (show_all flags) env))
           (SortByPid (sort_Slice_handles lib) unsorted)) = Inl (Error msg)"
      using inv by blast
    with None v u show ?thesis
      by (simp add: pstreeRunCmd_def GetProcesses_def Let_def)
  qed
qed

theorem invalid_options_rejected_witness:
  "color_conflict (no_flags\<lparr>flagColorAttr := ''cpu'', flagRainbow := True\<rparr>) \<and>
   (\<exists>msg. pstreeRunCmd example_library (no_flags\<lparr>flagColorAttr := ''cpu'', flagRainbow := True\<rparr>)
            example_env = Inl (Error msg)) \<and>
   invalid_sort_key (no_flags\<lparr>flagOrderBy := ''size''\<rparr>) \<and>
   flagVersion (no_flags\<lparr>flagOrderBy := ''size''\<rparr>) = False \<and>
   osProcesses example_env \<noteq> None \<and>
   (\<exists>msg. pstreeRunCmd example_library (no_flags\<lparr>flagOrderBy := ''size''\<rparr>) example_env =
            Inl (Error msg))"
proof -
  have a: "color_conflict (no_flags\<lparr>flagColorAttr := ''cpu'', flagRainbow := True\<rparr>)"
    by (simp add: color_conflict_def)
  have b: "invalid_sort_key (no_flags\<lparr>flagOrderBy := ''size''\<rparr>)"
    by (simp add: invalid_sort_key_def validOrderBy_def)
  have c: "flagVersion (no_flags\<lparr>flagOrderBy := ''size''\<rparr>) = False"
    "osProcesses example_env \<noteq> None"
    by (simp_all add: no_flags_def example_env_def)
  from a b c
    invalid_options_rejected [of "no_flags\<lparr>flagColorAttr := ''cpu'', flagRainbow := True\<rparr>"
      example_library example_env, THEN conjunct1]
    invalid_options_rejected [of "no_flags\<lparr>flagOrderBy := ''size''\<rparr>"
      example_library example_env, THEN conjunct2]
  show ?thesis by blast
qed

text \<open>
  Claim C8 fails as stated: with the version flag set, an unknown sort key returns no
  error; the run ends with \<open>os.Exit(0)\<close> before the key is looked at.
\<close>

theorem invalid_sort_key_counterexample:
  "invalid_sort_key (no_flags\<lparr>flagOrderBy := ''size'', flagVersion := True\<rparr>) \<and>
   pstreeRunCmd example_library (no_flags\<lparr>flagOrderBy := ''size'', flagVersion := True\<rparr>)
     example_env = Inl (Exit 0)"
  by (simp add: invalid_sort_key_def validOrderBy_def pstreeRunCmd_def flag_rules_def
        no_flags_def BtoI_def StoI_def example_env_def)

subsection \<open>Collecting processes\<close>

lemma ucast_minus_one_64_32: "(ucast (- 1 :: int64) :: int32) = - 1"
  by (rule bit_word_eqI) (simp add: bit_ucast_iff)

text \<open>
  The closure of \<open>ProcessCommandName\<close> never reports an error: it falls back from the
  executable path to the command line, the process name and at last \<open>[PID n]\<close>.
\<close>

lemma ProcessCommandName_never_fails: "\<exists>command. ProcessCommandName proc = Some command"
  by (auto simp: ProcessCommandName_def split: option.splits list.splits)

lemma ProcessCommandName_fallback:
  "ProcessCommandName proc =
     Some (if qExe proc \<noteq> None \<and> qExe proc \<noteq> Some [] then the (qExe proc)
           else if qCmdlineSlice2 proc \<noteq> None \<and> qCmdlineSlice2 proc \<noteq> Some []
           then hd (the (qCmdlineSlice2 proc))
           else if qName proc \<noteq> None \<and> qName proc \<noteq> Some [] then the (qName proc)
           else ''[PID '' @ Sprintf_d (sint (Pid proc)) @ '']'')"
  by (auto simp: ProcessCommandName_def split: option.splits list.splits)

lemma GenerateProcess_when_every_query_fails:
  "GenerateProcess (\<lambda>x places. x) vanished_info every_attribute =
     \<lparr>Age = 101, Args = [], Child = - 1, Command = ''[PID 7]'', CPUPercent = - 1,
      CreateTime = - 1, GIDs = [], Groups = [], MemoryInfo = Some \<lparr>RSS = 0\<rparr>,
      NumThreads = - 1, Parent = - 1, PGID = - 1, PID = 7, PPID = - 1, Signature = [],
      Sister = - 1, UIDs = [], Username = ''?''\<rparr>"
  by (simp add: GenerateProcess_def GenerateProcess_with_def fetchers_def ProcessArgs_def
        ProcessCommandName_def ProcessPPID_def ProcessCpuPercent_def ProcessCreateTime_def
        ProcessGIDs_def ProcessGroups_closure_def ProcessMemoryInfo_def ProcessNumThreads_def
        ProcessPGID_def ProcessUsername_def ProcessUIDs_def vanished_info_def
        every_attribute_def plain_options_def Sprintf_d_def decimal.simps
        ucast_minus_one_64_32)



subsection \<open>The sort operations\<close>

lemma sorted_by_contract:
  assumes "sort_contract srt" and "strict_weak_order lt"
  shows "mset (srt lt ps) = mset ps" and "sorted_wrt (\<lambda>a b. \<not> lt b a) (srt lt ps)"
  using assms unfolding sort_contract_def by blast+

lemma sorted_by_key:
  fixes f :: "'a \<Rightarrow> 'b::linorder"
  assumes "sort_contract srt"
  shows "mset (srt (\<lambda>a b. f a < f b) ps) = mset ps \<and>
         sorted_wrt (\<lambda>a b. f a \<le> f b) (srt (\<lambda>a b. f a < f b) ps)"
  using sorted_by_contract [OF assms strict_weak_order_key [of f], of ps]
  by (simp add: not_less)

text \<open>
  Claim C5 (as amended). With any sort function that meets the contract of
  \<open>sort.Slice\<close>, each of the six sort operations returns a rearrangement of the process
  list that is ascending in its key (for \<open>SortProcsByMemory\<close>: unless comparing panics
  on a nil \<open>MemoryInfo\<close>). Nothing is promised about the relative order of processes
  with equal keys.
\<close>

theorem sorts_ascending_permutation:
  fixes srt :: "('f::linorder) Process sorter"
  assumes "sort_contract srt"
  shows "mset (SortProcsByAge srt ps) = mset ps \<and>
         sorted_wrt (\<lambda>a b. sint (Age a) \<le> sint (Age b)) (SortProcsByAge srt ps) \<and>
         mset (SortProcsByCpu srt ps) = mset ps \<and>
         sorted_wrt (\<lambda>a b. CPUPercent a \<le> CPUPercent b) (SortProcsByCpu srt ps) \<and>
         (case SortProcsByMemory srt tofloat ps of
            Inl e \<Rightarrow> list_ex (\<lambda>p. MemoryInfo p = None) ps
          | Inr out \<Rightarrow> mset out = mset ps \<and>
                       sorted_wrt (\<lambda>a b. tofloat (rss_of a) \<le> tofloat (rss_of b)) out) \<and>
         mset (SortProcsByPid srt ps) = mset ps \<and>
         sorted_wrt (\<lambda>a b. sint (PID a) \<le> sint (PID b)) (SortProcsByPid srt ps) \<and>
         mset (SortProcsByNumThreads srt ps) = mset ps \<and>
         sorted_wrt (\<lambda>a b. sint (NumThreads a) \<le> sint (NumThreads b))
           (SortProcsByNumThreads srt ps) \<and>
         mset (SortProcsByUsername srt ps) = mset ps \<and>
         sorted_wrt (\<lambda>a b. \<not> string_less (Username b) (Username a))
           (SortProcsByUsername srt ps)"
proof -
  note k = sorted_by_key [OF assms]
  have age: "mset (SortProcsByAge srt ps) = mset ps \<and>
         sorted_wrt (\<lambda>a b. sint (Age a) \<le> sint (Age b)) (SortProcsByAge srt ps)"
    using k [of "\<lambda>p. sint (Age p)" ps] by (simp add: SortProcsByAge_def less_Age_def [abs_def])
  have cpu: "mset (SortProcsByCpu srt ps) = mset ps \<and>
         sorted_wrt (\<lambda>a b. CPUPercent a \<le> CPUPercent b) (SortProcsByCpu srt ps)"
    using k [of CPUPercent ps] by (simp add: SortProcsByCpu_def less_Cpu_def [abs_def])
  have mem: "(case SortProcsByMemory srt tofloat ps of
            Inl e \<Rightarrow> list_ex (\<lambda>p. MemoryInfo p = None) ps
          | Inr out \<Rightarrow> mset out = mset ps \<and>
                       sorted_wrt (\<lambda>a b. tofloat (rss_of a) \<le> tofloat (rss_of b)) out)"
    using k [of "\<lambda>p. tofloat (rss_of p)" ps]
    by (simp add: SortProcsByMemory_def less_Memory_def [abs_def])
  have pid: "mset (SortProcsByPid srt ps) = mset ps \<and>
         sorted_wrt (\<lambda>a b. sint (PID a) \<le> sint (PID b)) (SortProcsByPid srt ps)"
    using k [of "\<lambda>p. sint (PID p)" ps] by (simp add: SortProcsByPid_def less_Pid_def [abs_def])
  have thr: "mset (SortProcsByNumThreads srt ps) = mset ps \<and>
         sorted_wrt (\<lambda>a b. sint (NumThreads a) \<le> sint (NumThreads b))
           (SortProcsByNumThreads srt ps)"
    using k [of "\<lambda>p. sint (NumThreads p)" ps]
    by (simp add: SortProcsByNumThreads_def less_NumThreads_def [abs_def])
  have usr: "mset (SortProcsByUsername srt ps) = mset ps \<and>
         sorted_wrt (\<lambda>a b. \<not> string_less (Username b) (Username a))
           (SortProcsByUsername srt ps)"
    using sorted_by_contract [OF assms strict_weak_order_string_key [of Username], of ps]
    by (simp add: SortProcsByUsername_def less_Username_def [abs_def])
  from age cpu mem pid thr usr show ?thesis by simp
qed

theorem sorts_ascending_permutation_witness:
  "sort_contract (insertion_sort :: int Process sorter) \<and>
   mset (SortProcsByPid insertion_sort small_nodes) = mset small_nodes \<and>
   sorted_wrt (\<lambda>a b. sint (PID a) \<le> sint (PID b)) (SortProcsByPid insertion_sort small_nodes) \<and>
   map PID (SortProcsByPid insertion_sort small_nodes) = [1, 5, 7]"
proof -
  have c: "sort_contract (insertion_sort :: int Process sorter)"
    by (rule insertion_sort_contract)
  have "map PID (SortProcsByPid insertion_sort small_nodes) = [1, 5, 7]"
    by (simp add: SortProcsByPid_def insertion_sort_def small_nodes_def less_Pid_def
          example_node_def)
  with sorts_ascending_permutation [OF c, of small_nodes] c show ?thesis by simp
qed

lemma go_sort_thirteen:
  "go_sort_Slice less_Age thirteen =
     Some [aged 112 0, aged 106 1, aged 102 1, aged 103 1, aged 104 1, aged 105 1, aged 100 1,
           aged 107 1, aged 108 1, aged 109 1, aged 110 1, aged 111 1, aged 101 1]"
  by code_simp

text \<open>
  Claim C5 fails as stated: \<open>sort.Slice\<close> is not a stable sort. On thirteen processes
  with PIDs 100 to 112, all of age 1 except the last of age 0, \<open>SortProcsByAge\<close> with
  Go's algorithm moves the process of age 0 to the front and returns the processes of
  equal age in another order than they came in: 106 before 102, and 100 after 105.
\<close>

theorem sort_not_stable_counterexample:
  "map PID thirteen = [100, 101, 102, 103, 104, 105, 106, 107, 108, 109, 110, 111, 112] \<and>
   map Age thirteen = [1, 1, 1, 1, 1, 1, 1, 1, 1, 1, 1, 1, 0] \<and>
   go_sort_Slice less_Age thirteen = Some (SortProcsByAge go_sorter thirteen) \<and>
   map PID (SortProcsByAge go_sorter thirteen) =
     [112, 106, 102, 103, 104, 105, 100, 107, 108, 109, 110, 111, 101] \<and>
   map Age (SortProcsByAge go_sorter thirteen) = [0, 1, 1, 1, 1, 1, 1, 1, 1, 1, 1, 1, 1]"
  by (simp add: SortProcsByAge_def go_sorter_def go_sort_thirteen)
     (simp add: thirteen_def aged_def example_node_def)

end
